theory Spec2Isabelle
  imports Main
begin

section \<open>Data model\<close>

text \<open>
  Instants of \<^verbatim>\<open>time.Time\<close> are integers (nanoseconds on one clock), so that
  \<^verbatim>\<open>t.Before(u)\<close> is \<open>t < u\<close> and \<^verbatim>\<open>t.Add(d)\<close> is \<open>t + d\<close>.
\<close>

type_synonym time = int

definition Hour :: int where
  "Hour = 3600000000000"

text \<open>Rows of the tables created by \<^verbatim>\<open>ensureSchema\<close> (database/db.go). Of the
  \<^verbatim>\<open>posts\<close> table only the columns read or written by the operations below are kept.\<close>

record user_row =
  u_id :: int
  u_email :: string
  u_username :: string
  u_password :: string
  u_role :: string

record session_row =
  s_session_id :: string
  s_user_id :: int
  s_role :: string
  s_expiry :: time

record post_row =
  p_id :: int
  p_user_id :: int

record post_category_row =
  pc_post_id :: int
  pc_category_id :: int

record post_vote_row =
  pv_user_id :: int
  pv_post_id :: int
  pv_vote :: int

record comment_row =
  c_id :: int
  c_post_id :: int
  c_user_id :: int
  c_content :: string
  c_created_at :: string

record comment_vote_row =
  cv_user_id :: int
  cv_comment_id :: int
  cv_vote :: int

text \<open>\<^verbatim>\<open>models.SessionData\<close>, the value type of the in-memory map \<^verbatim>\<open>database.Sessions\<close>.\<close>

record SessionData =
  UserID :: int
  Role :: string
  Expiry :: time

text \<open>The SQL statements that the program passes to \<^verbatim>\<open>db.Exec\<close>, with their arguments.\<close>

datatype stmt =
    DELETE_sessions_by_id string
  | DELETE_sessions_by_user int
  | INSERT_session string int string time
  | DELETE_post_categories int
  | DELETE_comments_by_post int
  | DELETE_post_votes_by_post int
  | DELETE_posts int
  | DELETE_post_vote int int
  | UPSERT_post_vote int int int
  | INSERT_comment int int string string
  | DELETE_comment_votes int
  | DELETE_comments_by_id int

text \<open>\<^verbatim>\<open>sql.ErrNoRows\<close>, a constraint violation reported by the engine, and any other
  error of the driver.\<close>

datatype db_error = ErrNoRows | ErrConstraint | ErrDriver

text \<open>
  The state the handlers work on: the tables of the database behind \<^verbatim>\<open>*sql.DB\<close>, the
  counter of the \<^verbatim>\<open>AUTOINCREMENT\<close> key of \<^verbatim>\<open>comments\<close>, the package variable
  \<^verbatim>\<open>database.Sessions\<close>, and what \<^verbatim>\<open>log.Println\<close> has written. \<open>faults\<close> schedules the
  outcome of the coming calls of the driver (\<open>True\<close>: the call returns a driver error), one
  entry consumed per call; \<open>trace\<close> lists the statements that \<^verbatim>\<open>db.Exec\<close> has carried
  out, oldest first.
\<close>

record world =
  users :: "user_row list"
  sessions :: "session_row list"
  posts :: "post_row list"
  post_categories :: "post_category_row list"
  post_votes :: "post_vote_row list"
  comments :: "comment_row list"
  comment_votes :: "comment_vote_row list"
  comment_seq :: int
  Sessions :: "string \<rightharpoonup> SessionData"
  faults :: "bool list"
  trace :: "stmt list"
  logs :: "string list"

section \<open>The storage engine\<close>

definition Println :: "string \<Rightarrow> world \<Rightarrow> world" where
  "Println msg w = w\<lparr>logs := logs w @ [msg]\<rparr>"

text \<open>One call of the driver: it takes the next scheduled outcome.\<close>

definition driver_call :: "world \<Rightarrow> bool \<times> world" where
  "driver_call w =
     (case faults w of
        [] \<Rightarrow> (True, w)
      | f # fs \<Rightarrow> (\<not> f, w\<lparr>faults := fs\<rparr>))"

definition has_user :: "world \<Rightarrow> int \<Rightarrow> bool" where
  "has_user w uid = (uid \<in> set (map u_id (users w)))"

definition has_post :: "world \<Rightarrow> int \<Rightarrow> bool" where
  "has_post w pid = (pid \<in> set (map p_id (posts w)))"

definition is_post_vote :: "int \<Rightarrow> int \<Rightarrow> post_vote_row \<Rightarrow> bool" where
  "is_post_vote uid pid v = (pv_user_id v = uid \<and> pv_post_id v = pid)"

text \<open>The rowid that \<^verbatim>\<open>AUTOINCREMENT\<close> gives: one more than the largest ever used.\<close>

definition next_comment_id :: "world \<Rightarrow> int" where
  "next_comment_id w = foldr max (map c_id (comments w)) (comment_seq w) + 1"

text \<open>
  The effect of one statement on the tables, \<open>None\<close> when a constraint of the schema
  rejects it. Foreign keys are enforced (\<^verbatim>\<open>_foreign_keys=on\<close>): an insert needs its
  parent rows, and a delete cascades to the child rows (\<^verbatim>\<open>ON DELETE CASCADE\<close>).
\<close>

fun run :: "stmt \<Rightarrow> world \<Rightarrow> world option" where
  "run (DELETE_sessions_by_id sid) w =
     Some (w\<lparr>sessions := filter (\<lambda>s. s_session_id s \<noteq> sid) (sessions w)\<rparr>)"
| "run (DELETE_sessions_by_user uid) w =
     Some (w\<lparr>sessions := filter (\<lambda>s. s_user_id s \<noteq> uid) (sessions w)\<rparr>)"
| "run (INSERT_session sid uid role expiry) w =
     (if sid \<in> set (map s_session_id (sessions w)) \<or> \<not> has_user w uid then None
      else Some (w\<lparr>sessions := sessions w @
             [\<lparr>s_session_id = sid, s_user_id = uid, s_role = role, s_expiry = expiry\<rparr>]\<rparr>))"
| "run (DELETE_post_categories pid) w =
     Some (w\<lparr>post_categories := filter (\<lambda>pc. pc_post_id pc \<noteq> pid) (post_categories w)\<rparr>)"
| "run (DELETE_comments_by_post pid) w =
     (let gone = map c_id (filter (\<lambda>c. c_post_id c = pid) (comments w)) in
      Some (w\<lparr>comments := filter (\<lambda>c. c_post_id c \<noteq> pid) (comments w),
              comment_votes := filter (\<lambda>v. cv_comment_id v \<notin> set gone) (comment_votes w)\<rparr>))"
| "run (DELETE_post_votes_by_post pid) w =
     Some (w\<lparr>post_votes := filter (\<lambda>v. pv_post_id v \<noteq> pid) (post_votes w)\<rparr>)"
| "run (DELETE_posts pid) w =
     (let gone = map c_id (filter (\<lambda>c. c_post_id c = pid) (comments w)) in
      Some (w\<lparr>posts := filter (\<lambda>p. p_id p \<noteq> pid) (posts w),
              post_categories := filter (\<lambda>pc. pc_post_id pc \<noteq> pid) (post_categories w),
              post_votes := filter (\<lambda>v. pv_post_id v \<noteq> pid) (post_votes w),
              comments := filter (\<lambda>c. c_post_id c \<noteq> pid) (comments w),
              comment_votes := filter (\<lambda>v. cv_comment_id v \<notin> set gone) (comment_votes w)\<rparr>))"
| "run (DELETE_post_vote uid pid) w =
     Some (w\<lparr>post_votes := filter (\<lambda>v. \<not> is_post_vote uid pid v) (post_votes w)\<rparr>)"
| "run (UPSERT_post_vote uid pid val) w =
     (if val \<noteq> 1 \<and> val \<noteq> - 1 then None
      else if \<exists>v \<in> set (post_votes w). is_post_vote uid pid v
      then Some (w\<lparr>post_votes :=
             map (\<lambda>v. if is_post_vote uid pid v then v\<lparr>pv_vote := val\<rparr> else v) (post_votes w)\<rparr>)
      else if has_user w uid \<and> has_post w pid
      then Some (w\<lparr>post_votes := post_votes w @
             [\<lparr>pv_user_id = uid, pv_post_id = pid, pv_vote = val\<rparr>]\<rparr>)
      else None)"
| "run (INSERT_comment pid uid content created) w =
     (if has_post w pid \<and> has_user w uid
      then Some (w\<lparr>comments := comments w @
             [\<lparr>c_id = next_comment_id w, c_post_id = pid, c_user_id = uid,
               c_content = content, c_created_at = created\<rparr>],
             comment_seq := next_comment_id w\<rparr>)
      else None)"
| "run (DELETE_comment_votes cid) w =
     Some (w\<lparr>comment_votes := filter (\<lambda>v. cv_comment_id v \<noteq> cid) (comment_votes w)\<rparr>)"
| "run (DELETE_comments_by_id cid) w =
     Some (w\<lparr>comments := filter (\<lambda>c. c_id c \<noteq> cid) (comments w),
             comment_votes := filter (\<lambda>v. cv_comment_id v \<noteq> cid) (comment_votes w)\<rparr>)"

text \<open>\<^verbatim>\<open>db.Exec\<close>: the error it returns, and the state after it. A statement that fails
  changes no table.\<close>

definition Exec :: "stmt \<Rightarrow> world \<Rightarrow> db_error option \<times> world" where
  "Exec st w =
     (case driver_call w of (ok, w1) \<Rightarrow>
        if \<not> ok then (Some ErrDriver, w1)
        else (case run st w1 of
                None \<Rightarrow> (Some ErrConstraint, w1)
              | Some w2 \<Rightarrow> (None, w2\<lparr>trace := trace w2 @ [st]\<rparr>)))"

section \<open>database/db.go\<close>

text \<open>As in Go, a function returns its values together with the error, and the zero
  values when the error is set.\<close>

definition GetSessionData :: "string \<Rightarrow> world \<Rightarrow> (int \<times> string \<times> time \<times> db_error option) \<times> world" where
  "GetSessionData sessionID w =
     (case driver_call w of (ok, w1) \<Rightarrow>
        if \<not> ok then ((0, [], 0, Some ErrDriver), w1)
        else (case find (\<lambda>s. s_session_id s = sessionID) (sessions w1) of
                None \<Rightarrow> ((0, [], 0, Some ErrNoRows), w1)
              | Some s \<Rightarrow> ((s_user_id s, s_role s, s_expiry s, None), w1)))"

definition DeleteExpiredSession :: "string \<Rightarrow> world \<Rightarrow> db_error option \<times> world" where
  "DeleteExpiredSession sessionID w =
     (case Exec (DELETE_sessions_by_id sessionID) w of (err, w1) \<Rightarrow>
        if err \<noteq> None then (err, Println ''Error deleting expired session:'' w1)
        else (err, w1))"

definition DeleteSession :: "string \<Rightarrow> world \<Rightarrow> db_error option \<times> world" where
  "DeleteSession sessionID w =
     (case Exec (DELETE_sessions_by_id sessionID) w of (err, w1) \<Rightarrow>
        if err \<noteq> None then (err, Println ''Error deleting session from database:'' w1)
        else (None, w1\<lparr>Sessions := (Sessions w1)(sessionID := None)\<rparr>))"

definition GetUsernameByID :: "int \<Rightarrow> world \<Rightarrow> (string \<times> db_error option) \<times> world" where
  "GetUsernameByID userID w =
     (case driver_call w of (ok, w1) \<Rightarrow>
        if \<not> ok then (([], Some ErrDriver), w1)
        else (case find (\<lambda>u. u_id u = userID) (users w1) of
                None \<Rightarrow> (([], Some ErrNoRows), w1)
              | Some u \<Rightarrow> ((u_username u, None), w1)))"

definition GetUserByEmail :: "string \<Rightarrow> world \<Rightarrow> (int \<times> string \<times> string \<times> string \<times> db_error option) \<times> world" where
  "GetUserByEmail email w =
     (case driver_call w of (ok, w1) \<Rightarrow>
        if \<not> ok then ((0, [], [], [], Some ErrDriver), w1)
        else (case find (\<lambda>u. u_email u = email) (users w1) of
                None \<Rightarrow> ((0, [], [], [], Some ErrNoRows), w1)
              | Some u \<Rightarrow> ((u_id u, u_username u, u_password u, u_role u, None), w1)))"

definition DeleteUserSessions :: "int \<Rightarrow> world \<Rightarrow> db_error option \<times> world" where
  "DeleteUserSessions userID w = Exec (DELETE_sessions_by_user userID) w"

definition CreateSession :: "string \<Rightarrow> int \<Rightarrow> string \<Rightarrow> time \<Rightarrow> world \<Rightarrow> db_error option \<times> world" where
  "CreateSession sessionID userID role expiry w = Exec (INSERT_session sessionID userID role expiry) w"

definition GetPostOwnerID :: "int \<Rightarrow> world \<Rightarrow> (int \<times> db_error option) \<times> world" where
  "GetPostOwnerID postID w =
     (case driver_call w of (ok, w1) \<Rightarrow>
        if \<not> ok then ((0, Some ErrDriver), w1)
        else (case find (\<lambda>p. p_id p = postID) (posts w1) of
                None \<Rightarrow> ((0, Some ErrNoRows), w1)
              | Some p \<Rightarrow> ((p_user_id p, None), w1)))"

definition DeletePost :: "int \<Rightarrow> world \<Rightarrow> db_error option \<times> world" where
  "DeletePost postID w = Exec (DELETE_posts postID) w"

definition DeletePostCategories :: "int \<Rightarrow> world \<Rightarrow> db_error option \<times> world" where
  "DeletePostCategories postID w = Exec (DELETE_post_categories postID) w"

definition DeletePostComments :: "int \<Rightarrow> world \<Rightarrow> db_error option \<times> world" where
  "DeletePostComments postID w = Exec (DELETE_comments_by_post postID) w"

definition DeletePostVotes :: "int \<Rightarrow> world \<Rightarrow> db_error option \<times> world" where
  "DeletePostVotes postID w = Exec (DELETE_post_votes_by_post postID) w"

definition GetUserPostVote :: "int \<Rightarrow> int \<Rightarrow> world \<Rightarrow> (int \<times> bool \<times> db_error option) \<times> world" where
  "GetUserPostVote userID postID w =
     (case driver_call w of (ok, w1) \<Rightarrow>
        if \<not> ok then ((0, False, Some ErrDriver), w1)
        else (case find (is_post_vote userID postID) (post_votes w1) of
                None \<Rightarrow> ((0, False, None), w1)
              | Some v \<Rightarrow> ((pv_vote v, True, None), w1)))"

definition RemovePostVote :: "int \<Rightarrow> int \<Rightarrow> world \<Rightarrow> db_error option \<times> world" where
  "RemovePostVote userID postID w = Exec (DELETE_post_vote userID postID) w"

definition SetPostLike :: "int \<Rightarrow> int \<Rightarrow> world \<Rightarrow> db_error option \<times> world" where
  "SetPostLike userID postID w = Exec (UPSERT_post_vote userID postID 1) w"

definition SetPostDislike :: "int \<Rightarrow> int \<Rightarrow> world \<Rightarrow> db_error option \<times> world" where
  "SetPostDislike userID postID w = Exec (UPSERT_post_vote userID postID (- 1)) w"

text \<open>The aggregate query has no \<^verbatim>\<open>GROUP BY\<close>, so it yields one row also when no vote
  matches; \<^verbatim>\<open>COALESCE\<close> turns the sum over no rows into 0.\<close>

definition GetPostVoteStats :: "int \<Rightarrow> int \<Rightarrow> world \<Rightarrow> (int \<times> int \<times> int \<times> bool \<times> db_error option) \<times> world" where
  "GetPostVoteStats userID postID w =
     (case driver_call w of (ok, w1) \<Rightarrow>
        if \<not> ok then ((0, 0, 0, False, Some ErrDriver), w1)
        else
          (let rows = filter (\<lambda>v. pv_post_id v = postID) (post_votes w1);
               likes = sum_list (map (\<lambda>v. if pv_vote v = 1 then 1 else 0) rows);
               dislikes = sum_list (map (\<lambda>v. if pv_vote v = - 1 then 1 else 0) rows)
           in (case find (is_post_vote userID postID) (post_votes w1) of
                 Some v \<Rightarrow> ((likes, dislikes, pv_vote v, True, None), w1)
               | None \<Rightarrow> ((likes, dislikes, 0, False, None), w1))))"

definition CreateComment :: "int \<Rightarrow> int \<Rightarrow> string \<Rightarrow> string \<Rightarrow> world \<Rightarrow> (int \<times> db_error option) \<times> world" where
  "CreateComment postID userID content createdAt w =
     (case Exec (INSERT_comment postID userID content createdAt) w of (err, w1) \<Rightarrow>
        if err \<noteq> None then ((0, err), w1)
        else ((comment_seq w1, None), w1))"




section \<open>Requests, responses and the library\<close>

text \<open>What a handler reads of \<^verbatim>\<open>*http.Request\<close>: the method, the value of the cookie
  \<^verbatim>\<open>session_id\<close> when the request carries one, \<^verbatim>\<open>r.URL.Query().Get\<close>, whether
  \<^verbatim>\<open>r.ParseForm()\<close> succeeds, and \<^verbatim>\<open>r.FormValue\<close>.\<close>

record request =
  Method :: string
  session_cookie :: "string option"
  query :: "string \<Rightarrow> string"
  form_ok :: bool
  form :: "string \<Rightarrow> string"

record cookie =
  ck_name :: string
  ck_value :: string
  ck_path :: string
  ck_http_only :: bool
  ck_max_age :: int
  ck_expires :: "time option"
  ck_same_site :: string

text \<open>The JSON objects the handlers encode: a failure (\<^verbatim>\<open>"success": false\<close>) with its
  message, and the three shapes of success.\<close>

datatype json =
    Fail string
  | Ok_message string
  | Ok_votes int int int
  | Ok_comment int string int string string

text \<open>A reply: a JSON body under a status code, a redirect (303) with the cookie it
  sets, or the error page of \<^verbatim>\<open>writeError\<close>.\<close>

datatype response =
    Json nat json
  | SeeOther string "cookie option"
  | ErrorPage nat

text \<open>Functions of the Go library that the handlers call; they are parameters of the
  model: \<^verbatim>\<open>strconv.Atoi\<close>, \<^verbatim>\<open>strings.TrimSpace\<close>, \<^verbatim>\<open>bcrypt.CompareHashAndPassword\<close>
  (hash first) and \<^verbatim>\<open>Time.Format("2006-01-02 15:04:05")\<close>.\<close>

record env =
  Atoi :: "string \<Rightarrow> int option"
  TrimSpace :: "string \<Rightarrow> string"
  CompareHashAndPassword :: "string \<Rightarrow> string \<Rightarrow> bool"
  FormatTime :: "time \<Rightarrow> string"

section \<open>handlers/auth_handlers.go\<close>

text \<open>\<open>now\<close> is the value of \<^verbatim>\<open>time.Now()\<close> in the call.\<close>

definition IsAuthenticated :: "request \<Rightarrow> time \<Rightarrow> world \<Rightarrow> (bool \<times> int \<times> string) \<times> world" where
  "IsAuthenticated r now w =
     (case session_cookie r of
        None \<Rightarrow> ((False, 0, []), w)
      | Some v \<Rightarrow>
          (case GetSessionData v w of ((userID, role, expiry, err), w1) \<Rightarrow>
             if err = Some ErrNoRows then ((False, 0, []), w1)
             else if err \<noteq> None then ((False, 0, []), Println ''Error querying session:'' w1)
             else if expiry < now then
               (case DeleteExpiredSession v w1 of (err2, w2) \<Rightarrow>
                  if err2 \<noteq> None
                  then ((False, 0, []), Println ''Error deleting expired session:'' w2)
                  else ((False, 0, []), w2))
             else ((True, userID, role),
                   w1\<lparr>Sessions := (Sessions w1)(v \<mapsto> \<lparr>UserID = userID, Role = role, Expiry = expiry\<rparr>)\<rparr>)))"

definition redirect_target :: "request \<Rightarrow> string" where
  "redirect_target r = (if query r ''redirect'' = [] then ''/'' else query r ''redirect'')"

definition session_cookie_of :: "string \<Rightarrow> cookie" where
  "session_cookie_of sessionID =
     \<lparr>ck_name = ''session_id'', ck_value = sessionID, ck_path = ''/'', ck_http_only = True,
      ck_max_age = 24 * 60 * 60, ck_expires = None, ck_same_site = ''Lax''\<rparr>"

definition cleared_cookie :: cookie where
  "cleared_cookie =
     \<lparr>ck_name = ''session_id'', ck_value = [], ck_path = ''/'', ck_http_only = True,
      ck_max_age = 0, ck_expires = Some 0, ck_same_site = []\<rparr>"

text \<open>\<open>now0\<close> is the clock read inside \<^verbatim>\<open>IsAuthenticated\<close>, \<open>now\<close> the one read for the
  expiry, and \<open>sessionID\<close> the value of \<^verbatim>\<open>uuid.New().String()\<close>.\<close>

definition LoginHandler :: "env \<Rightarrow> request \<Rightarrow> time \<Rightarrow> time \<Rightarrow> string \<Rightarrow> world \<Rightarrow> response \<times> world" where
  "LoginHandler e r now0 now sessionID w =
     (case IsAuthenticated r now0 w of ((isAuth, _, _), w0) \<Rightarrow>
        if isAuth then (SeeOther (redirect_target r) None, w0)
        else if Method r = ''GET''
        then (SeeOther ''/?message=Login+please'' None, Println ''Redirecting GET /login to /.'' w0)
        else if Method r = ''POST'' then
          (let w1 = Println ''Processing login attempt.'' w0 in
           if \<not> form_ok r
           then (SeeOther ''/?login_error=Bad request'' None, Println ''Error parsing form:'' w1)
           else
             (let email = TrimSpace e (form r ''email''); password = form r ''password'' in
              if email = [] \<or> password = []
              then (SeeOther ''/?login_error=Email and password are required'' None,
                    Println ''Empty email or password.'' w1)
              else
                (case GetUserByEmail email w1 of ((userID, _, hashedPassword, role, err), w2) \<Rightarrow>
                   if err \<noteq> None
                   then (SeeOther ''/?login_error=Invalid email or password'' None,
                         Println ''Error fetching user with email %s: %v'' w2)
                   else if \<not> CompareHashAndPassword e hashedPassword password
                   then (SeeOther ''/?login_error=Invalid email or password'' None,
                         Println ''Invalid password for email %s.'' w2)
                   else
                     (case DeleteUserSessions userID w2 of (err2, w3) \<Rightarrow>
                        if err2 \<noteq> None
                        then (ErrorPage 500, Println ''Error deleting old sessions:'' w3)
                        else
                          (case CreateSession sessionID userID role (now + 24 * Hour) w3 of (err3, w4) \<Rightarrow>
                             if err3 \<noteq> None
                             then (ErrorPage 500, Println ''Error saving session:'' w4)
                             else (SeeOther (redirect_target r) (Some (session_cookie_of sessionID)), w4))))))
        else (ErrorPage 405, Println ''Method not allowed:'' w0))"

definition LogoutHandler :: "request \<Rightarrow> world \<Rightarrow> response \<times> world" where
  "LogoutHandler r w =
     (case session_cookie r of
        Some v \<Rightarrow>
          (case DeleteSession v w of (err, w1) \<Rightarrow>
             (SeeOther ''/'' (Some cleared_cookie),
              if err \<noteq> None then Println ''Error deleting session:'' w1 else w1))
      | None \<Rightarrow> (SeeOther ''/'' None, w))"

section \<open>handlers/post_handlers.go\<close>

definition DeletePostHandler :: "env \<Rightarrow> request \<Rightarrow> time \<Rightarrow> world \<Rightarrow> response \<times> world" where
  "DeletePostHandler e r now w =
     (if Method r \<noteq> ''DELETE''
      then (Json 405 (Fail ''Method not allowed.''), Println ''Method not allowed:'' w)
      else
        (case IsAuthenticated r now w of ((isAuth, userID, role), w0) \<Rightarrow>
           if \<not> isAuth then (Json 401 (Fail ''Not authenticated.''), w0)
           else if query r ''post_id'' = [] then (Json 400 (Fail ''Post ID is required.''), w0)
           else
             (case Atoi e (query r ''post_id'') of
                None \<Rightarrow> (Json 400 (Fail ''Invalid Post ID.''), w0)
              | Some postID \<Rightarrow>
                  (case GetPostOwnerID postID w0 of ((postUserID, err), w1) \<Rightarrow>
                     if err \<noteq> None
                     then (Json 404 (Fail ''Post not found.''), Println ''Error fetching post:'' w1)
                     else if userID \<noteq> postUserID \<and> role \<noteq> ''admin''
                     then (Json 403 (Fail ''Unauthorized.''), w1)
                     else
                       (case DeletePostCategories postID w1 of (err1, w2) \<Rightarrow>
                          if err1 \<noteq> None
                          then (Json 500 (Fail ''Server error.''), Println ''Error deleting post categories:'' w2)
                          else
                            (case DeletePostComments postID w2 of (err2, w3) \<Rightarrow>
                               if err2 \<noteq> None
                               then (Json 500 (Fail ''Server error.''), Println ''Error deleting comments:'' w3)
                               else
                                 (case DeletePostVotes postID w3 of (err3, w4) \<Rightarrow>
                                    if err3 \<noteq> None
                                    then (Json 500 (Fail ''Server error.''), Println ''Error deleting post votes:'' w4)
                                    else
                                      (case DeletePost postID w4 of (err4, w5) \<Rightarrow>
                                         if err4 \<noteq> None
                                         then (Json 500 (Fail ''Server error.''), Println ''Error deleting post:'' w5)
                                         else (Json 200 (Ok_message ''Post deleted successfully.''),
                                               Println ''User %d deleted post %d.'' w5)))))))))"

definition LikeHandler :: "env \<Rightarrow> request \<Rightarrow> time \<Rightarrow> world \<Rightarrow> response \<times> world" where
  "LikeHandler e r now w =
     (case IsAuthenticated r now w of ((isAuth, userID, _), w0) \<Rightarrow>
        if \<not> isAuth then (Json 200 (Fail ''Not authenticated.''), w0)
        else if query r ''post_id'' = [] then (Json 200 (Fail ''Post ID is required.''), w0)
        else
          (case Atoi e (query r ''post_id'') of
             None \<Rightarrow> (Json 200 (Fail ''Invalid Post ID.''), w0)
           | Some postID \<Rightarrow>
               (case GetUserPostVote userID postID w0 of ((currentVote, voteExists, err), w1) \<Rightarrow>
                  if err \<noteq> None
                  then (Json 200 (Fail ''Server error.''), Println ''Error checking vote:'' w1)
                  else
                    (case (if voteExists \<and> currentVote = 1
                           then RemovePostVote userID postID w1
                           else SetPostLike userID postID w1) of (err2, w2) \<Rightarrow>
                       if err2 \<noteq> None
                       then (Json 200 (Fail ''Server error.''), Println ''Error updating vote:'' w2)
                       else
                         (case GetPostVoteStats userID postID w2 of
                            ((likes, dislikes, userVote, userVoteExists, err3), w3) \<Rightarrow>
                              if err3 \<noteq> None
                              then (Json 200 (Fail ''Server error.''), Println ''Error fetching votes:'' w3)
                              else (Json 200 (Ok_votes likes dislikes (if userVoteExists then userVote else 0)),
                                    w3))))))"

definition DislikeHandler :: "env \<Rightarrow> request \<Rightarrow> time \<Rightarrow> world \<Rightarrow> response \<times> world" where
  "DislikeHandler e r now w =
     (case IsAuthenticated r now w of ((isAuth, userID, _), w0) \<Rightarrow>
        if \<not> isAuth then (Json 200 (Fail ''Not authenticated.''), w0)
        else if query r ''post_id'' = [] then (Json 200 (Fail ''Post ID is required.''), w0)
        else
          (case Atoi e (query r ''post_id'') of
             None \<Rightarrow> (Json 200 (Fail ''Invalid Post ID.''), w0)
           | Some postID \<Rightarrow>
               (case GetUserPostVote userID postID w0 of ((currentVote, voteExists, err), w1) \<Rightarrow>
                  if err \<noteq> None
                  then (Json 200 (Fail ''Server error.''), Println ''Error checking vote:'' w1)
                  else
                    (case (if voteExists \<and> currentVote = - 1
                           then RemovePostVote userID postID w1
                           else SetPostDislike userID postID w1) of (err2, w2) \<Rightarrow>
                       if err2 \<noteq> None
                       then (Json 200 (Fail ''Server error.''), Println ''Error updating vote:'' w2)
                       else
                         (case GetPostVoteStats userID postID w2 of
                            ((likes, dislikes, userVote, userVoteExists, err3), w3) \<Rightarrow>
                              if err3 \<noteq> None
                              then (Json 200 (Fail ''Server error.''), Println ''Error fetching votes:'' w3)
                              else (Json 200 (Ok_votes likes dislikes (if userVoteExists then userVote else 0)),
                                    w3))))))"

section \<open>handlers/comment_handlers.go\<close>

text \<open>\<open>now\<close> is the clock read inside \<^verbatim>\<open>IsAuthenticated\<close>, \<open>now1\<close> the one read for
  \<^verbatim>\<open>createdAt\<close>.\<close>

definition CommentHandler :: "env \<Rightarrow> request \<Rightarrow> time \<Rightarrow> time \<Rightarrow> world \<Rightarrow> response \<times> world" where
  "CommentHandler e r now now1 w =
     (case IsAuthenticated r now w of ((isAuth, userID, _), w0) \<Rightarrow>
        if \<not> isAuth
        then (SeeOther ''/?message=Login+please'' None,
              Println ''Unauthenticated user attempted to create a comment.'' w0)
        else if Method r \<noteq> ''POST'' then (Json 200 (Fail ''Method not allowed.''), w0)
        else if \<not> form_ok r
        then (Json 200 (Fail ''Bad request.''), Println ''Error parsing form: %v.'' w0)
        else
          (let w1 = Println ''Received form data: %v.'' w0;
               postIDStr = form r ''post_id'';
               content = form r ''content'';
               w2 = Println ''Comment attempt: post_id=%s, content=%q.'' w1 in
           if postIDStr = [] \<or> content = []
           then (Json 200 (Fail ''Post ID and content are required.''), w2)
           else
             (case Atoi e postIDStr of
                None \<Rightarrow> (Json 200 (Fail ''Invalid Post ID.''), w2)
              | Some postID \<Rightarrow>
                  (let trimmedContent = TrimSpace e content in
                   if trimmedContent = []
                   then (Json 200 (Fail ''Comment content cannot be empty or contain only whitespace.''), w2)
                   else if length trimmedContent < 3
                   then (Json 200 (Fail ''Comment must be at least 3 characters long.''), w2)
                   else if length trimmedContent > 500
                   then (Json 200 (Fail ''Comment cannot be longer than 500 characters.''), w2)
                   else
                     (let createdAt = FormatTime e now1 in
                      case CreateComment postID userID content createdAt w2 of ((commentID, err), w3) \<Rightarrow>
                        if err \<noteq> None
                        then (Json 500 (Fail ''Server error.''), Println ''Error inserting comment:'' w3)
                        else
                          (case GetUsernameByID userID w3 of ((username, err2), w4) \<Rightarrow>
                             if err2 \<noteq> None
                             then (Json 500 (Fail ''Server error.''), Println ''Error fetching username:'' w4)
                             else (Json 200 (Ok_comment commentID content userID username createdAt), w4)))))))"


section \<open>Constraints of the schema and outcomes of the driver\<close>

text \<open>\<open>call_fails w n\<close>: the \<open>n\<close>-th coming call of the driver (counted from 0) is scheduled
  to return a driver error.\<close>

definition call_fails :: "world \<Rightarrow> nat \<Rightarrow> bool" where
  "call_fails w n = (n < length (faults w) \<and> faults w ! n)"

text \<open>\<^verbatim>\<open>PRIMARY KEY(user_id, post_id)\<close> and \<^verbatim>\<open>CHECK(vote IN (-1, 1))\<close> of \<^verbatim>\<open>post_votes\<close>,
  and \<^verbatim>\<open>session_id TEXT PRIMARY KEY\<close> of \<^verbatim>\<open>sessions\<close>.\<close>

definition post_votes_pk :: "world \<Rightarrow> bool" where
  "post_votes_pk w = distinct (map (\<lambda>v. (pv_user_id v, pv_post_id v)) (post_votes w))"

definition post_votes_check :: "world \<Rightarrow> bool" where
  "post_votes_check w = (\<forall>v \<in> set (post_votes w). pv_vote v = 1 \<or> pv_vote v = - 1)"

definition sessions_pk :: "world \<Rightarrow> bool" where
  "sessions_pk w = distinct (map s_session_id (sessions w))"

section \<open>A concrete forum\<close>

text \<open>Two users with a session each, one post of the first user with a category and a
  comment of the second user, and a vote on that comment. The library functions are
  fixed to simple instances.\<close>

definition demo_env :: env where
  "demo_env =
     \<lparr>Atoi = (\<lambda>s. if s = ''1'' then Some 1 else if s = ''2'' then Some 2 else None),
      TrimSpace = (\<lambda>s. rev (dropWhile (\<lambda>c. c = CHR '' '') (rev (dropWhile (\<lambda>c. c = CHR '' '') s)))),
      CompareHashAndPassword = (\<lambda>h p. h = ''#'' @ p),
      FormatTime = (\<lambda>t. ''2025-01-01 00:00:00'')\<rparr>"

definition demo_world :: world where
  "demo_world =
     \<lparr>users = [\<lparr>u_id = 1, u_email = ''a@x.io'', u_username = ''ann'', u_password = ''#pw1'', u_role = ''user''\<rparr>,
               \<lparr>u_id = 2, u_email = ''b@x.io'', u_username = ''bob'', u_password = ''#pw2'', u_role = ''user''\<rparr>],
      sessions = [\<lparr>s_session_id = ''tokA'', s_user_id = 1, s_role = ''user'', s_expiry = 100\<rparr>,
                  \<lparr>s_session_id = ''tokB'', s_user_id = 2, s_role = ''user'', s_expiry = 100\<rparr>],
      posts = [\<lparr>p_id = 1, p_user_id = 1\<rparr>],
      post_categories = [\<lparr>pc_post_id = 1, pc_category_id = 1\<rparr>],
      post_votes = [],
      comments = [\<lparr>c_id = 1, c_post_id = 1, c_user_id = 2, c_content = ''nice'',
                   c_created_at = ''2025-01-01 00:00:00''\<rparr>],
      comment_votes = [\<lparr>cv_user_id = 1, cv_comment_id = 1, cv_vote = 1\<rparr>],
      comment_seq = 1,
      Sessions = Map.empty,
      faults = [],
      trace = [],
      logs = []\<rparr>"

text \<open>A request with the given method, session cookie and comment text, naming post 1
  and comment 1.\<close>

definition demo_request :: "string \<Rightarrow> string \<Rightarrow> string \<Rightarrow> request" where
  "demo_request m tok txt =
     \<lparr>Method = m, session_cookie = Some tok,
      query = (\<lambda>k. if k = ''post_id'' \<or> k = ''comment_id'' then ''1'' else []),
      form_ok = True,
      form = (\<lambda>k. if k = ''post_id'' then ''1'' else if k = ''content'' then txt else [])\<rparr>"

text \<open>The login form of the first user, sent without a cookie.\<close>

definition demo_login :: request where
  "demo_login =
     \<lparr>Method = ''POST'', session_cookie = None,
      query = (\<lambda>k. []),
      form_ok = True,
      form = (\<lambda>k. if k = ''email'' then ''a@x.io'' else if k = ''password'' then ''pw1'' else [])\<rparr>"

definition ann :: user_row where
  "ann = \<lparr>u_id = 1, u_email = ''a@x.io'', u_username = ''ann'', u_password = ''#pw1'', u_role = ''user''\<rparr>"

definition ann_session :: session_row where
  "ann_session = \<lparr>s_session_id = ''tokA'', s_user_id = 1, s_role = ''user'', s_expiry = 100\<rparr>"

definition bob_session :: session_row where
  "bob_session = \<lparr>s_session_id = ''tokB'', s_user_id = 2, s_role = ''user'', s_expiry = 100\<rparr>"

text \<open>The same forum where the second user likes post 1, and where the first user
  likes it and the second dislikes it.\<close>

definition demo_liked :: world where
  "demo_liked = demo_world\<lparr>post_votes := [\<lparr>pv_user_id = 2, pv_post_id = 1, pv_vote = 1\<rparr>]\<rparr>"

definition demo_voted :: world where
  "demo_voted = demo_world\<lparr>post_votes := [\<lparr>pv_user_id = 1, pv_post_id = 1, pv_vote = 1\<rparr>,
                                           \<lparr>pv_user_id = 2, pv_post_id = 1, pv_vote = - 1\<rparr>]\<rparr>"

section \<open>Auxiliary facts\<close>


lemma find_filter_neg: "find P (filter (\<lambda>x. \<not> P x) xs) = None"
  by (induction xs) auto

lemma find_None_iff2: "(find P xs = None) = (\<forall>x \<in> set xs. \<not> P x)"
  by (induction xs) auto

lemma IsAuthenticated_False_frame:
  assumes "IsAuthenticated r now w = ((False, a, b), w0)"
  shows "Sessions w0 = Sessions w" "users w0 = users w" "set (sessions w0) \<subseteq> set (sessions w)"
  using assms
  by (auto simp: IsAuthenticated_def GetSessionData_def DeleteExpiredSession_def Exec_def
        driver_call_def Println_def split: list.splits option.splits if_splits prod.splits)

lemma LoginHandler_successE:
  assumes "LoginHandler e r now0 now sid w = (SeeOther loc (Some c), w')"
  obtains a b w0 userID un hp role w2 w3 where
    "IsAuthenticated r now0 w = ((False, a, b), w0)"
    "GetUserByEmail (TrimSpace e (form r ''email'')) (Println ''Processing login attempt.'' w0)
       = ((userID, un, hp, role, None), w2)"
    "DeleteUserSessions userID w2 = (None, w3)"
    "CreateSession sid userID role (now + 24 * Hour) w3 = (None, w')"
    "c = session_cookie_of sid"
  using assms
  by (auto simp: LoginHandler_def Let_def split: prod.splits if_splits)

lemma GetUserByEmail_ok:
  assumes "GetUserByEmail email w = ((userID, un, hp, role, None), w2)"
  shows "\<exists>u. find (\<lambda>u. u_email u = email) (users w) = Some u \<and> userID = u_id u \<and> role = u_role u"
    "sessions w2 = sessions w" "Sessions w2 = Sessions w" "users w2 = users w"
  using assms
  by (auto simp: GetUserByEmail_def driver_call_def split: list.splits option.splits if_splits)

lemma DeleteUserSessions_ok:
  assumes "DeleteUserSessions userID w = (None, w3)"
  shows "sessions w3 = filter (\<lambda>s. s_user_id s \<noteq> userID) (sessions w)" "Sessions w3 = Sessions w"
  using assms
  by (auto simp: DeleteUserSessions_def Exec_def driver_call_def split: list.splits option.splits if_splits)

lemma CreateSession_ok:
  assumes "CreateSession sid userID role expiry w = (None, w')"
  shows "sessions w' = sessions w @ [\<lparr>s_session_id = sid, s_user_id = userID, s_role = role, s_expiry = expiry\<rparr>]"
    "sid \<notin> set (map s_session_id (sessions w))" "Sessions w' = Sessions w"
  using assms
  by (auto simp: CreateSession_def Exec_def driver_call_def split: list.splits option.splits if_splits)

lemma login_sessions:
  assumes "LoginHandler e r now0 now sid w = (SeeOther loc (Some c), w')"
    and "find (\<lambda>u. u_email u = TrimSpace e (form r ''email'')) (users w) = Some u"
  shows "\<exists>old. set old \<subseteq> set (sessions w) \<and> sid \<notin> set (map s_session_id (filter (\<lambda>s. s_user_id s \<noteq> u_id u) old)) \<and>
           sessions w' = filter (\<lambda>s. s_user_id s \<noteq> u_id u) old @
             [\<lparr>s_session_id = sid, s_user_id = u_id u, s_role = u_role u, s_expiry = now + 24 * Hour\<rparr>]"
    and "Sessions w' = Sessions w" and "c = session_cookie_of sid"
proof -
  from assms(1) obtain a b w0 userID un hp role w2 w3 where
    auth: "IsAuthenticated r now0 w = ((False, a, b), w0)" and
    gu: "GetUserByEmail (TrimSpace e (form r ''email'')) (Println ''Processing login attempt.'' w0)
       = ((userID, un, hp, role, None), w2)" and
    del: "DeleteUserSessions userID w2 = (None, w3)" and
    cr: "CreateSession sid userID role (now + 24 * Hour) w3 = (None, w')" and
    c: "c = session_cookie_of sid"
    by (rule LoginHandler_successE)
  have u0: "users w0 = users w" and m0: "Sessions w0 = Sessions w" and s0: "set (sessions w0) \<subseteq> set (sessions w)"
    using IsAuthenticated_False_frame[OF auth] by auto
  have "users (Println ''Processing login attempt.'' w0) = users w"
    using u0 by (simp add: Println_def)
  with GetUserByEmail_ok(1)[OF gu] assms(2) have uid: "userID = u_id u" and role: "role = u_role u"
    by auto
  have s2: "sessions w2 = sessions w0" and m2: "Sessions w2 = Sessions w"
    using GetUserByEmail_ok(2,3)[OF gu] m0 by (simp_all add: Println_def)
  have s3: "sessions w3 = filter (\<lambda>s. s_user_id s \<noteq> u_id u) (sessions w0)"
    using DeleteUserSessions_ok(1)[OF del] s2 uid by simp
  have m3: "Sessions w3 = Sessions w"
    using DeleteUserSessions_ok(2)[OF del] m2 by simp
  show "\<exists>old. set old \<subseteq> set (sessions w) \<and> sid \<notin> set (map s_session_id (filter (\<lambda>s. s_user_id s \<noteq> u_id u) old)) \<and>
           sessions w' = filter (\<lambda>s. s_user_id s \<noteq> u_id u) old @
             [\<lparr>s_session_id = sid, s_user_id = u_id u, s_role = u_role u, s_expiry = now + 24 * Hour\<rparr>]"
    using CreateSession_ok(1,2)[OF cr] s3 s0 uid role by (intro exI[of _ "sessions w0"]) simp
  show "Sessions w' = Sessions w" using CreateSession_ok(3)[OF cr] m3 by simp
  show "c = session_cookie_of sid" by (rule c)
qed

lemma find_append_new:
  "\<forall>x \<in> set xs. \<not> P x \<Longrightarrow> P y \<Longrightarrow> find P (xs @ [y]) = Some y"
  by (induction xs) auto

lemma IsAuthenticated_absent:
  assumes "session_cookie r = Some tok" and "find (\<lambda>s. s_session_id s = tok) (sessions w) = None"
  shows "fst (IsAuthenticated r now w) = (False, 0, [])"
  using assms
  by (auto simp: IsAuthenticated_def GetSessionData_def driver_call_def Println_def split: list.splits)

lemma IsAuthenticated_live:
  assumes "session_cookie r = Some tok" and "find (\<lambda>s. s_session_id s = tok) (sessions w) = Some s"
    and "\<not> s_expiry s < now" and "\<not> call_fails w 0"
  shows "IsAuthenticated r now w =
     ((True, s_user_id s, s_role s),
      (snd (driver_call w))\<lparr>Sessions := (Sessions w)(tok \<mapsto>
         \<lparr>UserID = s_user_id s, Role = s_role s, Expiry = s_expiry s\<rparr>)\<rparr>)"
  using assms
  by (auto simp: IsAuthenticated_def GetSessionData_def driver_call_def call_fails_def split: list.splits)


lemma find_map_upd:
  assumes "\<And>x. P (f x) = P x"
  shows "find P (map (\<lambda>x. if P x then f x else x) xs) = map_option f (find P xs)"
  using assms by (induction xs) auto


lemma Exec_healthy:
  "faults w = [] \<Longrightarrow> Exec st w =
     (case run st w of None \<Rightarrow> (Some ErrConstraint, w)
      | Some w2 \<Rightarrow> (None, w2\<lparr>trace := trace w2 @ [st]\<rparr>))"
  by (simp add: Exec_def driver_call_def)

lemma GetUserPostVote_healthy:
  "faults w = [] \<Longrightarrow> GetUserPostVote U T w =
     ((case find (is_post_vote U T) (post_votes w) of
         None \<Rightarrow> (0, False, None) | Some v \<Rightarrow> (pv_vote v, True, None)), w)"
  by (simp add: GetUserPostVote_def driver_call_def split: option.splits)

lemma GetPostVoteStats_healthy:
  "faults w = [] \<Longrightarrow> snd (GetPostVoteStats U T w) = w"
  "faults w = [] \<Longrightarrow> snd (snd (snd (snd (fst (GetPostVoteStats U T w))))) = None"
  by (simp_all add: GetPostVoteStats_def driver_call_def Let_def split: option.splits)

lemma IsAuthenticated_healthy:
  assumes "faults w = []" and "session_cookie r = Some tok"
    and "find (\<lambda>s. s_session_id s = tok) (sessions w) = Some s" and "\<not> s_expiry s < now"
  shows "IsAuthenticated r now w =
     ((True, s_user_id s, s_role s),
      w\<lparr>Sessions := (Sessions w)(tok \<mapsto> \<lparr>UserID = s_user_id s, Role = s_role s, Expiry = s_expiry s\<rparr>)\<rparr>)"
  using assms by (simp add: IsAuthenticated_def GetSessionData_def driver_call_def)

lemma LikeHandler_healthy:
  assumes "faults w = []" and "session_cookie r = Some tok"
    and "find (\<lambda>s. s_session_id s = tok) (sessions w) = Some s" and "\<not> s_expiry s < now"
    and "query r ''post_id'' \<noteq> []" and "Atoi e (query r ''post_id'') = Some T"
  shows "post_votes (snd (LikeHandler e r now w)) =
          (case find (is_post_vote (s_user_id s) T) (post_votes w) of
             Some v \<Rightarrow> if pv_vote v = 1
                       then filter (\<lambda>v. \<not> is_post_vote (s_user_id s) T v) (post_votes w)
                       else map (\<lambda>v. if is_post_vote (s_user_id s) T v then v\<lparr>pv_vote := 1\<rparr> else v) (post_votes w)
           | None \<Rightarrow> if has_user w (s_user_id s) \<and> has_post w T
                     then post_votes w @ [\<lparr>pv_user_id = s_user_id s, pv_post_id = T, pv_vote = 1\<rparr>]
                     else post_votes w)
       \<and> faults (snd (LikeHandler e r now w)) = []
       \<and> sessions (snd (LikeHandler e r now w)) = sessions w
       \<and> users (snd (LikeHandler e r now w)) = users w
       \<and> posts (snd (LikeHandler e r now w)) = posts w"
proof (cases "find (is_post_vote (s_user_id s) T) (post_votes w)")
  case None
  then have ne: "\<not> (\<exists>v \<in> set (post_votes w). is_post_vote (s_user_id s) T v)"
    by (simp add: find_None_iff2)
  show ?thesis
    using None ne assms(1,5,6)
    by (simp add: LikeHandler_def IsAuthenticated_healthy[OF assms(1-4)] GetUserPostVote_healthy
          SetPostLike_def Exec_healthy GetPostVoteStats_healthy has_user_def has_post_def Println_def case_prod_beta)
next
  case (Some v)
  then have ex: "\<exists>v \<in> set (post_votes w). is_post_vote (s_user_id s) T v"
    by (metis find_None_iff2 option.distinct(1))
  show ?thesis
    using Some ex assms(1,5,6)
    by (simp add: LikeHandler_def IsAuthenticated_healthy[OF assms(1-4)] GetUserPostVote_healthy
          SetPostLike_def RemovePostVote_def Exec_healthy GetPostVoteStats_healthy Println_def case_prod_beta)
qed


lemma DislikeHandler_healthy:
  assumes "faults w = []" and "session_cookie r = Some tok"
    and "find (\<lambda>s. s_session_id s = tok) (sessions w) = Some s" and "\<not> s_expiry s < now"
    and "query r ''post_id'' \<noteq> []" and "Atoi e (query r ''post_id'') = Some T"
  shows "post_votes (snd (DislikeHandler e r now w)) =
          (case find (is_post_vote (s_user_id s) T) (post_votes w) of
             Some v \<Rightarrow> if pv_vote v = - 1
                       then filter (\<lambda>v. \<not> is_post_vote (s_user_id s) T v) (post_votes w)
                       else map (\<lambda>v. if is_post_vote (s_user_id s) T v then v\<lparr>pv_vote := - 1\<rparr> else v) (post_votes w)
           | None \<Rightarrow> if has_user w (s_user_id s) \<and> has_post w T
                     then post_votes w @ [\<lparr>pv_user_id = s_user_id s, pv_post_id = T, pv_vote = - 1\<rparr>]
                     else post_votes w)
       \<and> faults (snd (DislikeHandler e r now w)) = []
       \<and> sessions (snd (DislikeHandler e r now w)) = sessions w
       \<and> users (snd (DislikeHandler e r now w)) = users w
       \<and> posts (snd (DislikeHandler e r now w)) = posts w"
proof (cases "find (is_post_vote (s_user_id s) T) (post_votes w)")
  case None
  then have ne: "\<not> (\<exists>v \<in> set (post_votes w). is_post_vote (s_user_id s) T v)"
    by (simp add: find_None_iff2)
  show ?thesis
    using None ne assms(1,5,6)
    by (simp add: DislikeHandler_def IsAuthenticated_healthy[OF assms(1-4)] GetUserPostVote_healthy
          SetPostDislike_def Exec_healthy GetPostVoteStats_healthy has_user_def has_post_def Println_def case_prod_beta)
next
  case (Some v)
  then have ex: "\<exists>v \<in> set (post_votes w). is_post_vote (s_user_id s) T v"
    by (metis find_None_iff2 option.distinct(1))
  show ?thesis
    using Some ex assms(1,5,6)
    by (simp add: DislikeHandler_def IsAuthenticated_healthy[OF assms(1-4)] GetUserPostVote_healthy
          SetPostDislike_def RemovePostVote_def Exec_healthy GetPostVoteStats_healthy Println_def case_prod_beta)
qed


lemma find_None_filter: "find P xs = None \<Longrightarrow> filter P xs = []"
  by (induction xs) (auto split: if_splits)

lemma distinct_key_filter_le1:
  "distinct (map k xs) \<Longrightarrow> length (filter (\<lambda>x. k x = a) xs) \<le> 1"
proof (induction xs)
  case Nil
  then show ?case by simp
next
  case (Cons x xs)
  show ?case
  proof (cases "k x = a")
    case True
    with Cons.prems have "\<forall>y \<in> set xs. k y \<noteq> a" by (auto simp: image_iff)
    then have "filter (\<lambda>x. k x = a) xs = []" by (simp add: filter_empty_conv)
    with True show ?thesis by simp
  next
    case False
    with Cons show ?thesis by simp
  qed
qed

lemma is_post_vote_key: "is_post_vote U T = (\<lambda>v. (pv_user_id v, pv_post_id v) = (U, T))"
  by (auto simp: is_post_vote_def)

lemma pk_find_one:
  assumes "post_votes_pk w" and "find (is_post_vote U T) (post_votes w) = Some v"
  shows "length (filter (is_post_vote U T) (post_votes w)) = 1"
proof -
  have "length (filter (is_post_vote U T) (post_votes w)) \<le> 1"
    using assms(1) distinct_key_filter_le1[of "\<lambda>v. (pv_user_id v, pv_post_id v)" "post_votes w" "(U, T)"]
    by (simp add: post_votes_pk_def is_post_vote_key)
  moreover have "filter (is_post_vote U T) (post_votes w) \<noteq> []"
    using assms(2) find_None_filter
    by (metis (mono_tags, lifting) filter_empty_conv find_None_iff2 option.distinct(1))
  ultimately show ?thesis
    by (cases "filter (is_post_vote U T) (post_votes w)") auto
qed

lemmas LikeHandler_votes = LikeHandler_healthy [THEN conjunct1]
lemmas LikeHandler_frame = LikeHandler_healthy [THEN conjunct2]
lemmas DislikeHandler_votes = DislikeHandler_healthy [THEN conjunct1]
lemmas DislikeHandler_frame = DislikeHandler_healthy [THEN conjunct2]

lemma is_post_vote_upd [simp]: "is_post_vote U T (v\<lparr>pv_vote := x\<rparr>) = is_post_vote U T v"
  by (simp add: is_post_vote_def)

lemma has_cong:
  "users w' = users w \<Longrightarrow> has_user w' = has_user w"
  "posts w' = posts w \<Longrightarrow> has_post w' = has_post w"
  by (auto simp: has_user_def has_post_def fun_eq_iff)

lemma key_upd_comp:
  "(\<lambda>v. (pv_user_id v, pv_post_id v)) \<circ> (\<lambda>v. if P v then v\<lparr>pv_vote := x\<rparr> else v)
     = (\<lambda>v. (pv_user_id v, pv_post_id v))"
  by (auto simp: fun_eq_iff)

lemma run_pk:
  assumes "run st w = Some w'" and "post_votes_pk w"
  shows "post_votes_pk w'"
proof (cases st)
  case (UPSERT_post_vote uid pid val)
  then show ?thesis
    using assms
    by (auto simp: post_votes_pk_def key_upd_comp is_post_vote_def image_iff split: if_splits)
qed (use assms in \<open>auto simp: post_votes_pk_def Let_def distinct_map_filter split: if_splits\<close>)

lemma run_check:
  assumes "run st w = Some w'" and "post_votes_check w"
  shows "post_votes_check w'"
  using assms
  by (cases st) (auto simp: post_votes_check_def Let_def split: if_splits)

lemma check_faults [simp]: "post_votes_check (w\<lparr>faults := fs\<rparr>) = post_votes_check w"
  and check_trace [simp]: "post_votes_check (w\<lparr>trace := tr\<rparr>) = post_votes_check w"
  by (simp_all add: post_votes_check_def)

lemma Exec_check: "post_votes_check w \<Longrightarrow> post_votes_check (snd (Exec st w))"
  by (auto simp: Exec_def driver_call_def dest: run_check split: list.splits option.splits)

lemma pk_faults [simp]: "post_votes_pk (w\<lparr>faults := fs\<rparr>) = post_votes_pk w"
  and pk_trace [simp]: "post_votes_pk (w\<lparr>trace := tr\<rparr>) = post_votes_pk w"
  and pk_logs [simp]: "post_votes_pk (w\<lparr>logs := l\<rparr>) = post_votes_pk w"
  and pk_mirror [simp]: "post_votes_pk (w\<lparr>Sessions := m\<rparr>) = post_votes_pk w"
  and pk_sessions [simp]: "post_votes_pk (w\<lparr>sessions := ss\<rparr>) = post_votes_pk w"
  by (simp_all add: post_votes_pk_def)

lemma Exec_pk: "post_votes_pk w \<Longrightarrow> post_votes_pk (snd (Exec st w))"
  by (auto simp: Exec_def driver_call_def dest: run_pk split: list.splits option.splits)

lemma pk_Println [simp]: "post_votes_pk (Println m w) = post_votes_pk w"
  by (simp add: Println_def)

lemma pk_IsAuthenticated [simp]: "post_votes_pk (snd (IsAuthenticated r now w)) = post_votes_pk w"
  by (simp add: IsAuthenticated_def GetSessionData_def DeleteExpiredSession_def Exec_def
        driver_call_def case_prod_beta split: option.splits list.splits)

lemma pk_GetUserPostVote [simp]: "post_votes_pk (snd (GetUserPostVote U T w)) = post_votes_pk w"
  by (simp add: GetUserPostVote_def driver_call_def split: option.splits list.splits)

lemma pk_GetPostVoteStats [simp]: "post_votes_pk (snd (GetPostVoteStats U T w)) = post_votes_pk w"
  by (simp add: GetPostVoteStats_def driver_call_def Let_def split: option.splits list.splits)

lemma LikeHandler_pk: "post_votes_pk w \<Longrightarrow> post_votes_pk (snd (LikeHandler e r now w))"
  by (simp add: LikeHandler_def case_prod_beta RemovePostVote_def SetPostLike_def Exec_pk
        split: option.splits)

lemma DislikeHandler_pk: "post_votes_pk w \<Longrightarrow> post_votes_pk (snd (DislikeHandler e r now w))"
  by (simp add: DislikeHandler_def case_prod_beta RemovePostVote_def SetPostDislike_def Exec_pk
        split: option.splits)

lemma sum_indicator: "sum_list (map (\<lambda>v. if P v then 1 else 0) xs) = int (length (filter P xs))"
  by (induction xs) auto

lemma check_partition:
  assumes "\<forall>v \<in> set xs. pv_vote v = 1 \<or> pv_vote v = - 1"
  shows "length (filter (\<lambda>v. pv_vote v = 1) xs) + length (filter (\<lambda>v. pv_vote v = - 1) xs) = length xs"
  using assms by (induction xs) auto

lemma length_filter_upd:
  "length (filter (is_post_vote U T) (map (\<lambda>v. if is_post_vote U T v then v\<lparr>pv_vote := x\<rparr> else v) xs))
     = length (filter (is_post_vote U T) xs)"
  by (induction xs) auto

lemma like_then_dislike:
  assumes healthy: "faults w = []"
    and cookie: "session_cookie r = Some tok"
    and sess: "find (\<lambda>s. s_session_id s = tok) (sessions w) = Some s"
    and live: "\<not> s_expiry s < now1" "\<not> s_expiry s < now2"
    and pid: "query r ''post_id'' \<noteq> []" "Atoi e (query r ''post_id'') = Some T"
    and fk: "has_user w (s_user_id s)" "has_post w T"
    and pk: "post_votes_pk w"
  shows "fst (GetUserPostVote (s_user_id s) T
            (snd (DislikeHandler e r now2 (snd (LikeHandler e r now1 w))))) = (- 1, True, None)
       \<and> length (filter (is_post_vote (s_user_id s) T)
            (post_votes (snd (DislikeHandler e r now2 (snd (LikeHandler e r now1 w)))))) = 1"
proof -
  let ?U = "s_user_id s"
  let ?w1 = "snd (LikeHandler e r now1 w)"
  let ?w2 = "snd (DislikeHandler e r now2 ?w1)"
  let ?up = "\<lparr>pv_user_id = ?U, pv_post_id = T, pv_vote = 1\<rparr>"
  let ?dn = "\<lparr>pv_user_id = ?U, pv_post_id = T, pv_vote = - 1\<rparr>"
  let ?set = "\<lambda>x xs. map (\<lambda>v. if is_post_vote ?U T v then v\<lparr>pv_vote := x\<rparr> else v) xs"
  note V1 = LikeHandler_votes[OF healthy cookie sess live(1) pid]
  note F1 = LikeHandler_frame[OF healthy cookie sess live(1) pid]
  have f1: "faults ?w1 = []" and s1: "sessions ?w1 = sessions w"
    and u1: "users ?w1 = users w" and p1: "posts ?w1 = posts w"
    using F1 by blast+
  have sess1: "find (\<lambda>s. s_session_id s = tok) (sessions ?w1) = Some s"
    using sess by (simp only: s1)
  note V2 = DislikeHandler_votes[OF f1 cookie sess1 live(2) pid]
  note F2 = DislikeHandler_frame[OF f1 cookie sess1 live(2) pid]
  have f2: "faults ?w2 = []" using F2 by blast
  have fk1: "has_user ?w1 ?U \<and> has_post ?w1 T"
    using has_cong(1)[OF u1] has_cong(2)[OF p1] fk by simp
  have "\<exists>v. find (is_post_vote ?U T) (post_votes ?w2) = Some v \<and> pv_vote v = - 1"
    and "length (filter (is_post_vote ?U T) (post_votes ?w2)) = 1"
  proof -
    consider (absent) "find (is_post_vote ?U T) (post_votes w) = None"
      | (liked) v where "find (is_post_vote ?U T) (post_votes w) = Some v" "pv_vote v = 1"
      | (other) v where "find (is_post_vote ?U T) (post_votes w) = Some v" "pv_vote v \<noteq> 1"
      by (cases "find (is_post_vote ?U T) (post_votes w)") auto
    then have "(\<exists>v. find (is_post_vote ?U T) (post_votes ?w2) = Some v \<and> pv_vote v = - 1)
      \<and> length (filter (is_post_vote ?U T) (post_votes ?w2)) = 1"
    proof cases
      case absent
      have pv1: "post_votes ?w1 = post_votes w @ [?up]"
        unfolding V1 using absent fk by simp
      have fnd: "find (is_post_vote ?U T) (post_votes ?w1) = Some ?up"
        unfolding pv1 using absent by (intro find_append_new) (simp_all add: find_None_iff2 is_post_vote_def)
      have pv2: "post_votes ?w2 = ?set (- 1) (post_votes ?w1)"
        unfolding V2 fnd by simp
      have "find (is_post_vote ?U T) (post_votes ?w2) = Some (?up\<lparr>pv_vote := - 1\<rparr>)"
        unfolding pv2 using fnd by (simp add: find_map_upd)
      moreover have "length (filter (is_post_vote ?U T) (post_votes ?w2)) = 1"
      proof -
        have "length (filter (is_post_vote ?U T) (post_votes ?w2))
            = length (filter (is_post_vote ?U T) (post_votes ?w1))"
          unfolding pv2 by (simp only: length_filter_upd)
        also have "\<dots> = 1"
          unfolding pv1 using find_None_filter[OF absent] by (simp add: is_post_vote_def)
        finally show ?thesis .
      qed
      ultimately show ?thesis by simp
    next
      case liked
      have pv1: "post_votes ?w1 = filter (\<lambda>v. \<not> is_post_vote ?U T v) (post_votes w)"
        unfolding V1 using liked by simp
      have n1: "find (is_post_vote ?U T) (post_votes ?w1) = None"
        by (simp only: pv1 find_filter_neg)
      have pv2: "post_votes ?w2 = post_votes ?w1 @ [?dn]"
        unfolding V2 n1 using fk1 by simp
      have "find (is_post_vote ?U T) (post_votes ?w2) = Some ?dn"
        unfolding pv2 using n1 by (intro find_append_new) (simp_all add: find_None_iff2 is_post_vote_def)
      moreover have "length (filter (is_post_vote ?U T) (post_votes ?w2)) = 1"
        unfolding pv2 by (simp add: find_None_filter[OF n1] is_post_vote_def)
      ultimately show ?thesis by simp
    next
      case other
      have pv1: "post_votes ?w1 = ?set 1 (post_votes w)"
        unfolding V1 using other by simp
      have fnd: "find (is_post_vote ?U T) (post_votes ?w1) = Some (v\<lparr>pv_vote := 1\<rparr>)"
        unfolding pv1 using other(1) by (simp add: find_map_upd)
      have pv2: "post_votes ?w2 = ?set (- 1) (post_votes ?w1)"
        unfolding V2 fnd by simp
      have "find (is_post_vote ?U T) (post_votes ?w2) = Some (v\<lparr>pv_vote := 1, pv_vote := - 1\<rparr>)"
        unfolding pv2 using fnd by (simp add: find_map_upd)
      moreover have "length (filter (is_post_vote ?U T) (post_votes ?w2)) = 1"
        unfolding pv2 pv1 using pk_find_one[OF pk other(1)] by (simp only: length_filter_upd)
      ultimately show ?thesis by simp
    qed
    then show "\<exists>v. find (is_post_vote ?U T) (post_votes ?w2) = Some v \<and> pv_vote v = - 1"
      and "length (filter (is_post_vote ?U T) (post_votes ?w2)) = 1" by blast+
  qed
  then show ?thesis
    by (auto simp: GetUserPostVote_healthy[OF f2])
qed







lemma IsAuthenticated_tables:
  "posts (snd (IsAuthenticated r now w)) = posts w"
  "post_categories (snd (IsAuthenticated r now w)) = post_categories w"
  "comments (snd (IsAuthenticated r now w)) = comments w"
  "post_votes (snd (IsAuthenticated r now w)) = post_votes w"
  "comment_votes (snd (IsAuthenticated r now w)) = comment_votes w"
  "comment_seq (snd (IsAuthenticated r now w)) = comment_seq w"
  "users (snd (IsAuthenticated r now w)) = users w"
  by (simp_all add: IsAuthenticated_def GetSessionData_def DeleteExpiredSession_def Exec_def
        driver_call_def Println_def case_prod_beta split: option.splits list.splits)

lemma IsAuthenticated_True_trace:
  "fst (fst (IsAuthenticated r now w)) \<Longrightarrow>
     trace (snd (IsAuthenticated r now w)) = trace w \<and> sessions (snd (IsAuthenticated r now w)) = sessions w"
  by (auto simp: IsAuthenticated_def GetSessionData_def DeleteExpiredSession_def Exec_def
        driver_call_def Println_def case_prod_beta split: option.splits list.splits if_splits)

lemma GetPostOwnerID_frame:
  "posts (snd (GetPostOwnerID P w)) = posts w"
  "post_categories (snd (GetPostOwnerID P w)) = post_categories w"
  "comments (snd (GetPostOwnerID P w)) = comments w"
  "post_votes (snd (GetPostOwnerID P w)) = post_votes w"
  "comment_votes (snd (GetPostOwnerID P w)) = comment_votes w"
  "trace (snd (GetPostOwnerID P w)) = trace w"
  by (simp_all add: GetPostOwnerID_def driver_call_def split: list.splits option.splits)

lemma GetPostOwnerID_absent:
  "find (\<lambda>p. p_id p = P) (posts w) = None \<Longrightarrow> snd (fst (GetPostOwnerID P w)) \<noteq> None"
  by (simp add: GetPostOwnerID_def driver_call_def split: list.splits)

lemma DeletePost_posts:
  "fst (DeletePost P w) = None \<Longrightarrow> find (\<lambda>p. p_id p = P) (posts (snd (DeletePost P w))) = None"
  by (auto simp: DeletePost_def Exec_def driver_call_def Let_def find_None_iff2 split: list.splits if_splits)

lemma delete_success_absent:
  assumes "fst (DeletePostHandler e r now w) = Json 200 (Ok_message ''Post deleted successfully.'')"
  shows "\<exists>P. Method r = ''DELETE'' \<and> query r ''post_id'' \<noteq> [] \<and> Atoi e (query r ''post_id'') = Some P
           \<and> find (\<lambda>p. p_id p = P) (posts (snd (DeletePostHandler e r now w))) = None"
  using assms
  by (auto simp: DeletePostHandler_def case_prod_beta DeletePost_posts Println_def
        split: if_splits option.splits)

lemma DeletePostHandler_absent:
  assumes "Method r = ''DELETE''" and "fst (fst (IsAuthenticated r now w))"
    and "query r ''post_id'' \<noteq> []" and "Atoi e (query r ''post_id'') = Some P"
    and "find (\<lambda>p. p_id p = P) (posts w) = None"
  shows "fst (DeletePostHandler e r now w) = Json 404 (Fail ''Post not found.'')
       \<and> posts (snd (DeletePostHandler e r now w)) = posts w
       \<and> post_categories (snd (DeletePostHandler e r now w)) = post_categories w
       \<and> comments (snd (DeletePostHandler e r now w)) = comments w
       \<and> post_votes (snd (DeletePostHandler e r now w)) = post_votes w
       \<and> comment_votes (snd (DeletePostHandler e r now w)) = comment_votes w
       \<and> trace (snd (DeletePostHandler e r now w)) = trace w"
proof -
  have "find (\<lambda>p. p_id p = P) (posts (snd (IsAuthenticated r now w))) = None"
    using assms(5) by (simp only: IsAuthenticated_tables)
  then have "snd (fst (GetPostOwnerID P (snd (IsAuthenticated r now w)))) \<noteq> None"
    by (rule GetPostOwnerID_absent)
  then show ?thesis
    using assms(1-4)
    by (simp add: DeletePostHandler_def case_prod_beta Println_def GetPostOwnerID_frame
          IsAuthenticated_tables IsAuthenticated_True_trace)
qed






lemma IsAuthenticated_comments:
  "comments (snd (IsAuthenticated r now w)) = comments w"
  "comment_seq (snd (IsAuthenticated r now w)) = comment_seq w"
  by (simp_all add: IsAuthenticated_def GetSessionData_def DeleteExpiredSession_def Exec_def
        driver_call_def Println_def case_prod_beta split: option.splits list.splits)

lemma GetUsernameByID_comments:
  "comments (snd (GetUsernameByID u w)) = comments w"
  "comment_seq (snd (GetUsernameByID u w)) = comment_seq w"
  by (simp_all add: GetUsernameByID_def driver_call_def split: option.splits list.splits)

lemma Println_comments:
  "comments (Println m w) = comments w" "comment_seq (Println m w) = comment_seq w"
  by (simp_all add: Println_def)

lemma CreateComment_comments:
  "comments (snd (CreateComment P u cnt ca w)) =
     (if snd (fst (CreateComment P u cnt ca w)) = None
      then comments w @ [\<lparr>c_id = fst (fst (CreateComment P u cnt ca w)), c_post_id = P, c_user_id = u,
                           c_content = cnt, c_created_at = ca\<rparr>]
      else comments w)"
  by (auto simp: CreateComment_def Exec_def driver_call_def split: list.splits)

lemma demo_login_result:
  "LoginHandler demo_env demo_login 40 50 ''tokN'' demo_world =
     (SeeOther ''/'' (Some (session_cookie_of ''tokN'')),
      demo_world\<lparr>sessions := [bob_session,
          \<lparr>s_session_id = ''tokN'', s_user_id = 1, s_role = ''user'', s_expiry = 50 + 24 * Hour\<rparr>],
        trace := [DELETE_sessions_by_user 1, INSERT_session ''tokN'' 1 ''user'' (50 + 24 * Hour)],
        logs := [''Processing login attempt.'']\<rparr>)"
  by (simp add: LoginHandler_def IsAuthenticated_def demo_login_def demo_env_def demo_world_def
        GetUserByEmail_def DeleteUserSessions_def CreateSession_def Exec_def driver_call_def
        Println_def has_user_def redirect_target_def bob_session_def Let_def)

lemma demo_user: "find (\<lambda>u. u_email u = TrimSpace demo_env (form demo_login ''email'')) (users demo_world) = Some ann"
  by (simp add: demo_env_def demo_login_def demo_world_def ann_def)

section \<open>Sessions\<close>

text \<open>
  Claim C4, as the code has it. Resolving the token of a stored session whose expiry lies
  strictly before the clock (\<^verbatim>\<open>expiry.Before(time.Now())\<close>) answers unauthenticated,
  \<open>(False, 0, [])\<close>, whatever the driver does. When the lookup and the delete both go
  through, the row of the token is gone from \<open>sessions\<close>; when the delete fails, the
  failure is logged, the table is left as it was and the answer is the same.
\<close>

theorem expired_session_resolution:
  assumes "session_cookie r = Some tok"
    and "find (\<lambda>s. s_session_id s = tok) (sessions w) = Some s"
    and "s_expiry s < now"
  shows "fst (IsAuthenticated r now w) = (False, 0, [])
       \<and> (\<not> call_fails w 0 \<and> \<not> call_fails w 1 \<longrightarrow>
            sessions (snd (IsAuthenticated r now w)) = filter (\<lambda>s. s_session_id s \<noteq> tok) (sessions w)
          \<and> find (\<lambda>s. s_session_id s = tok) (sessions (snd (IsAuthenticated r now w))) = None)
       \<and> (\<not> call_fails w 0 \<and> call_fails w 1 \<longrightarrow>
            sessions (snd (IsAuthenticated r now w)) = sessions w
          \<and> ''Error deleting expired session:'' \<in> set (logs (snd (IsAuthenticated r now w))))"
  using assms
  by (cases "faults w"; cases "tl (faults w)")
     (auto simp: IsAuthenticated_def GetSessionData_def DeleteExpiredSession_def Exec_def
        driver_call_def call_fails_def Println_def find_filter_neg split: list.splits)

theorem expired_session_resolution_witness:
  "s_expiry ann_session < 101
   \<and> fst (IsAuthenticated (demo_request ''GET'' ''tokA'' []) 101 demo_world) = (False, 0, [])
   \<and> sessions (snd (IsAuthenticated (demo_request ''GET'' ''tokA'' []) 101 demo_world)) = [bob_session]
   \<and> fst (IsAuthenticated (demo_request ''GET'' ''tokA'' []) 101 (demo_world\<lparr>faults := [False, True]\<rparr>))
       = (False, 0, [])
   \<and> sessions (snd (IsAuthenticated (demo_request ''GET'' ''tokA'' []) 101
        (demo_world\<lparr>faults := [False, True]\<rparr>))) = [ann_session, bob_session]"
proof -
  let ?r = "demo_request ''GET'' ''tokA'' []"
  let ?w = "demo_world\<lparr>faults := [False, True]\<rparr>"
  have c: "session_cookie ?r = Some ''tokA''"
    by (simp add: demo_request_def)
  have f: "find (\<lambda>s. s_session_id s = ''tokA'') (sessions demo_world) = Some ann_session"
    by (simp add: demo_world_def ann_session_def)
  have f': "find (\<lambda>s. s_session_id s = ''tokA'') (sessions ?w) = Some ann_session"
    by (simp add: demo_world_def ann_session_def)
  have x: "s_expiry ann_session < 101"
    by (simp add: ann_session_def)
  have ok: "\<not> call_fails demo_world 0" "\<not> call_fails demo_world 1"
    by (simp_all add: call_fails_def demo_world_def)
  have bad: "\<not> call_fails ?w 0" "call_fails ?w 1"
    by (simp_all add: call_fails_def)
  have s: "filter (\<lambda>s. s_session_id s \<noteq> ''tokA'') (sessions demo_world) = [bob_session]"
    "sessions ?w = [ann_session, bob_session]"
    by (simp_all add: demo_world_def bob_session_def ann_session_def)
  show ?thesis
    using expired_session_resolution [OF c f x] expired_session_resolution [OF c f' x] ok bad s x
    by simp
qed

text \<open>At the boundary the claim as written fails: a session whose expiry equals the clock
  satisfies \<open>expiry \<le> now\<close>, yet it resolves as authenticated and its row stays.\<close>

theorem expiry_boundary_counterexample:
  "s_session_id (hd (sessions demo_world)) = ''tokA''
   \<and> s_expiry (hd (sessions demo_world)) \<le> 100
   \<and> fst (IsAuthenticated (demo_request ''GET'' ''tokA'' []) 100 demo_world) = (True, 1, ''user'')
   \<and> sessions (snd (IsAuthenticated (demo_request ''GET'' ''tokA'' []) 100 demo_world)) = sessions demo_world"
  by (simp add: IsAuthenticated_def GetSessionData_def driver_call_def demo_world_def demo_request_def)

text \<open>
  Claim C9. A logout request that carries a session cookie is always answered with the
  cleared cookie (empty value, expiry at the epoch), also when the delete fails. When
  the delete goes through, the session row is gone from the store and the token has no
  entry in the in-memory map \<open>Sessions\<close>; when it fails, the failure is logged and the
  store and the map are unchanged.
\<close>

theorem logout_semantics:
  assumes "session_cookie r = Some tok"
  shows "fst (LogoutHandler r w) = SeeOther ''/'' (Some cleared_cookie)
       \<and> ck_value cleared_cookie = [] \<and> ck_expires cleared_cookie = Some 0
       \<and> (\<not> call_fails w 0 \<longrightarrow>
            sessions (snd (LogoutHandler r w)) = filter (\<lambda>s. s_session_id s \<noteq> tok) (sessions w)
          \<and> find (\<lambda>s. s_session_id s = tok) (sessions (snd (LogoutHandler r w))) = None
          \<and> Sessions (snd (LogoutHandler r w)) tok = None)
       \<and> (call_fails w 0 \<longrightarrow>
            sessions (snd (LogoutHandler r w)) = sessions w
          \<and> Sessions (snd (LogoutHandler r w)) = Sessions w
          \<and> ''Error deleting session:'' \<in> set (logs (snd (LogoutHandler r w))))"
  using assms
  by (cases "faults w")
     (auto simp: LogoutHandler_def DeleteSession_def Exec_def cleared_cookie_def
        driver_call_def call_fails_def Println_def find_filter_neg split: list.splits)

theorem logout_semantics_witness:
  "fst (LogoutHandler (demo_request ''GET'' ''tokA'' []) demo_world) = SeeOther ''/'' (Some cleared_cookie)
   \<and> sessions (snd (LogoutHandler (demo_request ''GET'' ''tokA'' []) demo_world)) = [bob_session]
   \<and> Sessions (snd (LogoutHandler (demo_request ''GET'' ''tokA'' []) demo_world)) ''tokA'' = None
   \<and> fst (LogoutHandler (demo_request ''GET'' ''tokA'' []) (demo_world\<lparr>faults := [True]\<rparr>))
       = SeeOther ''/'' (Some cleared_cookie)
   \<and> sessions (snd (LogoutHandler (demo_request ''GET'' ''tokA'' []) (demo_world\<lparr>faults := [True]\<rparr>)))
       = [ann_session, bob_session]"
proof -
  let ?r = "demo_request ''GET'' ''tokA'' []"
  let ?w = "demo_world\<lparr>faults := [True]\<rparr>"
  have c: "session_cookie ?r = Some ''tokA''"
    by (simp add: demo_request_def)
  have ok: "\<not> call_fails demo_world 0" and bad: "call_fails ?w 0"
    by (simp_all add: call_fails_def demo_world_def)
  have s: "filter (\<lambda>s. s_session_id s \<noteq> ''tokA'') (sessions demo_world) = [bob_session]"
    "sessions ?w = [ann_session, bob_session]"
    by (simp_all add: demo_world_def bob_session_def ann_session_def)
  show ?thesis
    using logout_semantics [OF c, of demo_world] logout_semantics [OF c, of ?w] ok bad s
    by simp
qed

text \<open>
  Claim C5. After a login of user \<open>u\<close> that succeeds (the reply sets the new cookie), every
  session that \<open>u\<close> had before, under a token other than the new one, resolves as
  unauthenticated: at any time, for any request carrying the old token, and whatever the
  driver does. The table is taken to respect its primary key.
\<close>

theorem single_active_session:
  assumes login: "LoginHandler e r now0 now sid w = (SeeOther loc (Some c), w')"
    and user: "find (\<lambda>u. u_email u = TrimSpace e (form r ''email'')) (users w) = Some u"
    and pk: "sessions_pk w"
    and old: "s \<in> set (sessions w)" "s_user_id s = u_id u" "s_session_id s \<noteq> sid"
    and cookie: "session_cookie r' = Some (s_session_id s)"
  shows "fst (IsAuthenticated r' now' w') = (False, 0, [])"
proof -
  from login_sessions(1)[OF login user] obtain old where
    sub: "set old \<subseteq> set (sessions w)" and
    w': "sessions w' = filter (\<lambda>s. s_user_id s \<noteq> u_id u) old @
             [\<lparr>s_session_id = sid, s_user_id = u_id u, s_role = u_role u, s_expiry = now + 24 * Hour\<rparr>]"
    by blast
  have "\<forall>x \<in> set (sessions w'). s_session_id x \<noteq> s_session_id s"
  proof
    fix x assume x: "x \<in> set (sessions w')"
    show "s_session_id x \<noteq> s_session_id s"
    proof
      assume eq: "s_session_id x = s_session_id s"
      with old(3) x w' have "x \<in> set old" "s_user_id x \<noteq> u_id u" by auto
      with sub have "x \<in> set (sessions w)" by auto
      with pk old(1) eq have "x = s" unfolding sessions_pk_def by (meson distinct_map inj_onD)
      with \<open>s_user_id x \<noteq> u_id u\<close> old(2) show False by simp
    qed
  qed
  then have "find (\<lambda>x. s_session_id x = s_session_id s) (sessions w') = None"
    by (simp add: find_None_iff2)
  with cookie show ?thesis by (rule IsAuthenticated_absent)
qed

theorem single_active_session_witness:
  "sessions_pk demo_world \<and> ann_session \<in> set (sessions demo_world)
   \<and> s_user_id ann_session = u_id ann
   \<and> fst (IsAuthenticated (demo_request ''GET'' ''tokA'' []) 60
        (snd (LoginHandler demo_env demo_login 40 50 ''tokN'' demo_world))) = (False, 0, [])"
proof -
  have pk: "sessions_pk demo_world"
    by (simp add: sessions_pk_def demo_world_def)
  have old: "ann_session \<in> set (sessions demo_world)" "s_user_id ann_session = u_id ann"
    "s_session_id ann_session \<noteq> ''tokN''"
    by (simp_all add: demo_world_def ann_session_def ann_def)
  have c: "session_cookie (demo_request ''GET'' ''tokA'' []) = Some (s_session_id ann_session)"
    by (simp add: demo_request_def ann_session_def)
  show ?thesis
    using single_active_session [OF demo_login_result demo_user pk old c, of 60] pk old
    by (simp add: demo_login_result)
qed

text \<open>
  Claim C6, as the code has it. A login of user \<open>u\<close> that succeeds stores the session
  \<open>(sessionID, u_id u, u_role u, now + 24 * Hour)\<close>, sets the cookie to the new
  token, and leaves the in-memory map \<open>Sessions\<close> as it was. The entry of the map
  (user, role, expiry) is written when the token is next resolved: by a lookup that
  goes through, no later than the expiry.
\<close>

theorem session_creation_effects:
  assumes login: "LoginHandler e r now0 now sid w = (SeeOther loc (Some c), w')"
    and user: "find (\<lambda>u. u_email u = TrimSpace e (form r ''email'')) (users w) = Some u"
  shows "find (\<lambda>s. s_session_id s = sid) (sessions w') =
           Some \<lparr>s_session_id = sid, s_user_id = u_id u, s_role = u_role u, s_expiry = now + 24 * Hour\<rparr>
       \<and> c = session_cookie_of sid
       \<and> Sessions w' = Sessions w
       \<and> (\<forall>r' now'. session_cookie r' = Some sid \<and> \<not> now + 24 * Hour < now' \<and> \<not> call_fails w' 0 \<longrightarrow>
            fst (IsAuthenticated r' now' w') = (True, u_id u, u_role u)
          \<and> Sessions (snd (IsAuthenticated r' now' w')) sid =
              Some \<lparr>UserID = u_id u, Role = u_role u, Expiry = now + 24 * Hour\<rparr>)"
proof -
  from login_sessions(1)[OF login user] obtain old where
    fresh: "sid \<notin> set (map s_session_id (filter (\<lambda>s. s_user_id s \<noteq> u_id u) old))" and
    w': "sessions w' = filter (\<lambda>s. s_user_id s \<noteq> u_id u) old @
             [\<lparr>s_session_id = sid, s_user_id = u_id u, s_role = u_role u, s_expiry = now + 24 * Hour\<rparr>]"
    by blast
  have f: "find (\<lambda>s. s_session_id s = sid) (sessions w') =
           Some \<lparr>s_session_id = sid, s_user_id = u_id u, s_role = u_role u, s_expiry = now + 24 * Hour\<rparr>"
    unfolding w' using fresh by (intro find_append_new) auto
  have live: "fst (IsAuthenticated r' now' w') = (True, u_id u, u_role u)
          \<and> Sessions (snd (IsAuthenticated r' now' w')) sid =
              Some \<lparr>UserID = u_id u, Role = u_role u, Expiry = now + 24 * Hour\<rparr>"
    if "session_cookie r' = Some sid" "\<not> now + 24 * Hour < now'" "\<not> call_fails w' 0" for r' now'
    using IsAuthenticated_live[OF that(1) f _ that(3), of now'] that(2) by simp
  show ?thesis
    using f login_sessions(2,3)[OF login user] live by blast
qed

theorem session_creation_effects_witness:
  "find (\<lambda>s. s_session_id s = ''tokN'')
      (sessions (snd (LoginHandler demo_env demo_login 40 50 ''tokN'' demo_world))) =
      Some \<lparr>s_session_id = ''tokN'', s_user_id = 1, s_role = ''user'', s_expiry = 50 + 24 * Hour\<rparr>
   \<and> Sessions (snd (LoginHandler demo_env demo_login 40 50 ''tokN'' demo_world)) = Sessions demo_world
   \<and> fst (IsAuthenticated (demo_request ''GET'' ''tokN'' []) 60
        (snd (LoginHandler demo_env demo_login 40 50 ''tokN'' demo_world))) = (True, 1, ''user'')
   \<and> Sessions (snd (IsAuthenticated (demo_request ''GET'' ''tokN'' []) 60
        (snd (LoginHandler demo_env demo_login 40 50 ''tokN'' demo_world)))) ''tokN'' =
      Some \<lparr>UserID = 1, Role = ''user'', Expiry = 50 + 24 * Hour\<rparr>"
proof -
  let ?w' = "snd (LoginHandler demo_env demo_login 40 50 ''tokN'' demo_world)"
  have c: "session_cookie (demo_request ''GET'' ''tokN'' []) = Some ''tokN''"
    by (simp add: demo_request_def)
  have t: "\<not> 50 + 24 * Hour < (60::int)"
    by (simp add: Hour_def)
  have ok: "\<not> call_fails ?w' 0"
    unfolding demo_login_result by (simp add: call_fails_def demo_world_def)
  have w': "LoginHandler demo_env demo_login 40 50 ''tokN'' demo_world =
      (SeeOther ''/'' (Some (session_cookie_of ''tokN'')), ?w')"
    by (simp add: demo_login_result)
  show ?thesis
    using session_creation_effects [OF w' demo_user] c t ok
    by (simp add: ann_def)
qed

text \<open>The claim as written fails in its second half: after a successful login the
  in-memory map has no entry for the new token.\<close>

theorem login_mirror_counterexample:
  "fst (LoginHandler demo_env demo_login 40 50 ''tokN'' demo_world)
     = SeeOther ''/'' (Some (session_cookie_of ''tokN''))
   \<and> Sessions (snd (LoginHandler demo_env demo_login 40 50 ''tokN'' demo_world)) ''tokN'' = None"
  by (simp add: LoginHandler_def IsAuthenticated_def demo_login_def demo_env_def demo_world_def
        GetUserByEmail_def DeleteUserSessions_def CreateSession_def Exec_def driver_call_def
        Println_def has_user_def redirect_target_def Let_def)

section \<open>Votes\<close>

text \<open>
  Claim C1, as the code has it. With a healthy driver and a live session of user \<open>U\<close>,
  take two like requests in a row for post \<open>T\<close>. Starting from a state where the vote of
  \<open>U\<close> on \<open>T\<close> is absent or \<open>-1\<close>, they leave \<open>U\<close> with no vote on \<open>T\<close>:
  \<open>GetUserPostVote\<close> answers \<open>(0, False)\<close>. Starting from a vote of \<open>+1\<close>, with the user
  and the post in their tables as the foreign keys of the vote row require, they leave
  the vote at \<open>+1\<close> again: the first like removes the row and the second inserts it.
\<close>

theorem like_twice_toggle:
  assumes healthy: "faults w = []"
    and cookie: "session_cookie r = Some tok"
    and sess: "find (\<lambda>s. s_session_id s = tok) (sessions w) = Some s"
    and live: "\<not> s_expiry s < now1" "\<not> s_expiry s < now2"
    and pid: "query r ''post_id'' \<noteq> []" "Atoi e (query r ''post_id'') = Some T"
  shows "(fst (GetUserPostVote (s_user_id s) T w) = (0, False, None)
          \<or> fst (GetUserPostVote (s_user_id s) T w) = (- 1, True, None)
          \<longrightarrow> fst (GetUserPostVote (s_user_id s) T
                (snd (LikeHandler e r now2 (snd (LikeHandler e r now1 w))))) = (0, False, None))
       \<and> (fst (GetUserPostVote (s_user_id s) T w) = (1, True, None)
          \<and> has_user w (s_user_id s) \<and> has_post w T
          \<longrightarrow> fst (GetUserPostVote (s_user_id s) T
                (snd (LikeHandler e r now2 (snd (LikeHandler e r now1 w))))) = (1, True, None))"
proof -
  let ?U = "s_user_id s"
  let ?w1 = "snd (LikeHandler e r now1 w)"
  let ?w2 = "snd (LikeHandler e r now2 ?w1)"
  let ?up = "\<lparr>pv_user_id = ?U, pv_post_id = T, pv_vote = 1\<rparr>"
  note V1 = LikeHandler_votes[OF healthy cookie sess live(1) pid]
  note F1 = LikeHandler_frame[OF healthy cookie sess live(1) pid]
  have f1: "faults ?w1 = []" and s1: "sessions ?w1 = sessions w"
    and u1: "users ?w1 = users w" and p1: "posts ?w1 = posts w"
    using F1 by blast+
  have sess1: "find (\<lambda>s. s_session_id s = tok) (sessions ?w1) = Some s"
    using sess by (simp only: s1)
  note V2 = LikeHandler_votes[OF f1 cookie sess1 live(2) pid]
  note F2 = LikeHandler_frame[OF f1 cookie sess1 live(2) pid]
  have f2: "faults ?w2 = []" using F2 by blast
  have hu: "has_user ?w1 = has_user w" and hp: "has_post ?w1 = has_post w"
    using has_cong(1)[OF u1] has_cong(2)[OF p1] by blast+
  have now_vote: "fst (GetUserPostVote ?U T w) =
      (case find (is_post_vote ?U T) (post_votes w) of
         None \<Rightarrow> (0, False, None) | Some v \<Rightarrow> (pv_vote v, True, None))"
    by (simp add: GetUserPostVote_healthy[OF healthy])
  have cleared: "find (is_post_vote ?U T) (post_votes ?w2) = None"
    if start: "fst (GetUserPostVote ?U T w) = (0, False, None)
             \<or> fst (GetUserPostVote ?U T w) = (- 1, True, None)"
  proof (cases "find (is_post_vote ?U T) (post_votes w)")
    case None
    show ?thesis
    proof (cases "has_user w ?U \<and> has_post w T")
      case True
      have pv1: "post_votes ?w1 = post_votes w @ [?up]"
        unfolding V1 using None True by simp
      have fnd: "find (is_post_vote ?U T) (post_votes ?w1) = Some ?up"
        unfolding pv1 using None by (intro find_append_new) (simp_all add: find_None_iff2 is_post_vote_def)
      have "post_votes ?w2 = filter (\<lambda>v. \<not> is_post_vote ?U T v) (post_votes ?w1)"
        unfolding V2 fnd by simp
      then show ?thesis by (simp only: find_filter_neg)
    next
      case False
      have pv1: "post_votes ?w1 = post_votes w"
        unfolding V1 using None False by simp
      have fnd: "find (is_post_vote ?U T) (post_votes ?w1) = None"
        using None by (simp only: pv1)
      have "post_votes ?w2 = post_votes ?w1"
        unfolding V2 fnd hu hp using False by simp
      then show ?thesis using fnd by simp
    qed
  next
    case (Some v)
    with start now_vote have v: "pv_vote v = - 1" by simp
    have pv1: "post_votes ?w1 =
        map (\<lambda>v. if is_post_vote ?U T v then v\<lparr>pv_vote := 1\<rparr> else v) (post_votes w)"
      unfolding V1 Some using v by simp
    have fnd: "find (is_post_vote ?U T) (post_votes ?w1) = Some (v\<lparr>pv_vote := 1\<rparr>)"
      unfolding pv1 using Some by (simp add: find_map_upd)
    have "post_votes ?w2 = filter (\<lambda>v. \<not> is_post_vote ?U T v) (post_votes ?w1)"
      unfolding V2 fnd by simp
    then show ?thesis by (simp only: find_filter_neg)
  qed
  have restored: "find (is_post_vote ?U T) (post_votes ?w2) = Some ?up"
    if liked: "fst (GetUserPostVote ?U T w) = (1, True, None)"
      and fk: "has_user w ?U" "has_post w T"
  proof -
    from liked now_vote obtain v where
      v: "find (is_post_vote ?U T) (post_votes w) = Some v" "pv_vote v = 1"
      by (cases "find (is_post_vote ?U T) (post_votes w)") simp_all
    have pv1: "post_votes ?w1 = filter (\<lambda>v. \<not> is_post_vote ?U T v) (post_votes w)"
      unfolding V1 using v by simp
    have n1: "find (is_post_vote ?U T) (post_votes ?w1) = None"
      by (simp only: pv1 find_filter_neg)
    have pv2: "post_votes ?w2 = post_votes ?w1 @ [?up]"
      unfolding V2 n1 hu hp using fk by simp
    show ?thesis
      unfolding pv2 using n1 by (intro find_append_new) (simp_all add: find_None_iff2 is_post_vote_def)
  qed
  show ?thesis
  proof (intro conjI impI)
    assume "fst (GetUserPostVote ?U T w) = (0, False, None)
          \<or> fst (GetUserPostVote ?U T w) = (- 1, True, None)"
    from cleared[OF this] show "fst (GetUserPostVote ?U T ?w2) = (0, False, None)"
      by (simp add: GetUserPostVote_healthy[OF f2])
  next
    assume "fst (GetUserPostVote ?U T w) = (1, True, None) \<and> has_user w ?U \<and> has_post w T"
    then have "find (is_post_vote ?U T) (post_votes ?w2) = Some ?up"
      by (intro restored) simp_all
    then show "fst (GetUserPostVote ?U T ?w2) = (1, True, None)"
      by (simp add: GetUserPostVote_healthy[OF f2])
  qed
qed

theorem like_twice_toggle_witness:
  "fst (GetUserPostVote 2 1 demo_world) = (0, False, None)
   \<and> fst (GetUserPostVote 2 1
        (snd (LikeHandler demo_env (demo_request ''POST'' ''tokB'' []) 50
          (snd (LikeHandler demo_env (demo_request ''POST'' ''tokB'' []) 40 demo_world))))) = (0, False, None)
   \<and> fst (GetUserPostVote 2 1 demo_voted) = (- 1, True, None)
   \<and> fst (GetUserPostVote 2 1
        (snd (LikeHandler demo_env (demo_request ''POST'' ''tokB'' []) 50
          (snd (LikeHandler demo_env (demo_request ''POST'' ''tokB'' []) 40 demo_voted))))) = (0, False, None)
   \<and> fst (GetUserPostVote 1 1 demo_voted) = (1, True, None)
   \<and> has_user demo_voted 1 \<and> has_post demo_voted 1
   \<and> fst (GetUserPostVote 1 1
        (snd (LikeHandler demo_env (demo_request ''POST'' ''tokA'' []) 50
          (snd (LikeHandler demo_env (demo_request ''POST'' ''tokA'' []) 40 demo_voted))))) = (1, True, None)"
proof -
  let ?r = "demo_request ''POST'' ''tokB'' []"
  let ?ra = "demo_request ''POST'' ''tokA'' []"
  have h: "faults demo_world = []" "faults demo_voted = []"
    by (simp_all add: demo_world_def demo_voted_def)
  have c: "session_cookie ?r = Some ''tokB''" and ca: "session_cookie ?ra = Some ''tokA''"
    by (simp_all add: demo_request_def)
  have f: "find (\<lambda>s. s_session_id s = ''tokB'') (sessions demo_world) = Some bob_session"
    "find (\<lambda>s. s_session_id s = ''tokB'') (sessions demo_voted) = Some bob_session"
    and fa: "find (\<lambda>s. s_session_id s = ''tokA'') (sessions demo_voted) = Some ann_session"
    by (simp_all add: demo_world_def demo_voted_def bob_session_def ann_session_def)
  have l: "\<not> s_expiry bob_session < 40" "\<not> s_expiry bob_session < 50"
    and la: "\<not> s_expiry ann_session < 40" "\<not> s_expiry ann_session < 50"
    by (simp_all add: bob_session_def ann_session_def)
  have p: "query ?r ''post_id'' \<noteq> []" "Atoi demo_env (query ?r ''post_id'') = Some 1"
    and pa: "query ?ra ''post_id'' \<noteq> []" "Atoi demo_env (query ?ra ''post_id'') = Some 1"
    by (simp_all add: demo_request_def demo_env_def)
  have u: "s_user_id bob_session = 2" and ua: "s_user_id ann_session = 1"
    by (simp_all add: bob_session_def ann_session_def)
  have a: "fst (GetUserPostVote 2 1 demo_world) = (0, False, None)"
    by (simp add: GetUserPostVote_def driver_call_def demo_world_def)
  have d: "fst (GetUserPostVote 2 1 demo_voted) = (- 1, True, None)"
    by (simp add: GetUserPostVote_def driver_call_def demo_world_def demo_voted_def is_post_vote_def)
  have k: "fst (GetUserPostVote 1 1 demo_voted) = (1, True, None)"
    by (simp add: GetUserPostVote_def driver_call_def demo_world_def demo_voted_def is_post_vote_def)
  have fk: "has_user demo_voted 1" "has_post demo_voted 1"
    by (simp_all add: has_user_def has_post_def demo_world_def demo_voted_def)
  show ?thesis
    using like_twice_toggle [OF h(1) c f(1) l p, unfolded u] a
      like_twice_toggle [OF h(2) c f(2) l p, unfolded u] d
      like_twice_toggle [OF h(2) ca fa la pa, unfolded ua] k fk
    by simp
qed

text \<open>From a vote of \<open>+1\<close> the claim as written fails: the first like removes the vote
  and the second sets it again.\<close>

theorem like_twice_counterexample:
  "fst (GetUserPostVote 2 1 demo_liked) = (1, True, None)
   \<and> fst (GetUserPostVote 2 1
        (snd (LikeHandler demo_env (demo_request ''POST'' ''tokB'' []) 50
          (snd (LikeHandler demo_env (demo_request ''POST'' ''tokB'' []) 40 demo_liked))))) = (1, True, None)"
  by (simp add: LikeHandler_def IsAuthenticated_def GetSessionData_def driver_call_def
        demo_world_def demo_liked_def demo_request_def demo_env_def GetUserPostVote_def
        SetPostLike_def RemovePostVote_def Exec_def GetPostVoteStats_def is_post_vote_def
        has_user_def has_post_def Let_def)

text \<open>
  Claim C2. With a healthy driver, a live session of an existing user \<open>U\<close> and an existing
  post \<open>T\<close>, a like request followed by a dislike request leaves the vote of \<open>U\<close> on \<open>T\<close>
  at \<open>-1\<close>, held by exactly one row of \<open>post_votes\<close>. And whatever the request, the
  clock and the driver do, the like handler, the dislike handler and every statement
  run by \<^verbatim>\<open>db.Exec\<close> keep the primary key of \<open>post_votes\<close>: at most one row per user and
  post.
\<close>

theorem vote_exclusivity:
  assumes healthy: "faults w = []"
    and cookie: "session_cookie r = Some tok"
    and sess: "find (\<lambda>s. s_session_id s = tok) (sessions w) = Some s"
    and live: "\<not> s_expiry s < now1" "\<not> s_expiry s < now2"
    and pid: "query r ''post_id'' \<noteq> []" "Atoi e (query r ''post_id'') = Some T"
    and fk: "has_user w (s_user_id s)" "has_post w T"
    and pk: "post_votes_pk w"
  shows "fst (GetUserPostVote (s_user_id s) T
            (snd (DislikeHandler e r now2 (snd (LikeHandler e r now1 w))))) = (- 1, True, None)
       \<and> length (filter (is_post_vote (s_user_id s) T)
            (post_votes (snd (DislikeHandler e r now2 (snd (LikeHandler e r now1 w)))))) = 1
       \<and> (\<forall>e' r' t' w'. post_votes_pk w' \<longrightarrow>
            post_votes_pk (snd (LikeHandler e' r' t' w'))
          \<and> post_votes_pk (snd (DislikeHandler e' r' t' w')))
       \<and> (\<forall>st w'. post_votes_pk w' \<longrightarrow> post_votes_pk (snd (Exec st w')))"
proof (intro conjI allI impI)
  note both = like_then_dislike [OF healthy cookie sess live pid fk pk]
  show "fst (GetUserPostVote (s_user_id s) T
            (snd (DislikeHandler e r now2 (snd (LikeHandler e r now1 w))))) = (- 1, True, None)"
    using both by (rule conjunct1)
  show "length (filter (is_post_vote (s_user_id s) T)
            (post_votes (snd (DislikeHandler e r now2 (snd (LikeHandler e r now1 w)))))) = 1"
    using both by (rule conjunct2)
next
  fix e' r' t' w' assume "post_votes_pk w'"
  then show "post_votes_pk (snd (LikeHandler e' r' t' w'))"
    and "post_votes_pk (snd (DislikeHandler e' r' t' w'))"
    by (rule LikeHandler_pk, rule DislikeHandler_pk)
next
  fix st w' assume "post_votes_pk w'"
  then show "post_votes_pk (snd (Exec st w'))"
    by (rule Exec_pk)
qed

theorem vote_exclusivity_witness:
  "post_votes_pk demo_liked
   \<and> fst (GetUserPostVote 2 1
        (snd (DislikeHandler demo_env (demo_request ''POST'' ''tokB'' []) 50
          (snd (LikeHandler demo_env (demo_request ''POST'' ''tokB'' []) 40 demo_liked))))) = (- 1, True, None)
   \<and> length (filter (is_post_vote 2 1)
        (post_votes (snd (DislikeHandler demo_env (demo_request ''POST'' ''tokB'' []) 50
          (snd (LikeHandler demo_env (demo_request ''POST'' ''tokB'' []) 40 demo_liked)))))) = 1
   \<and> post_votes_pk (snd (LikeHandler demo_env (demo_request ''POST'' ''tokB'' []) 40 demo_liked))"
proof -
  let ?r = "demo_request ''POST'' ''tokB'' []"
  have h: "faults demo_liked = []"
    by (simp add: demo_world_def demo_liked_def)
  have c: "session_cookie ?r = Some ''tokB''"
    by (simp add: demo_request_def)
  have f: "find (\<lambda>s. s_session_id s = ''tokB'') (sessions demo_liked) = Some bob_session"
    by (simp add: demo_world_def demo_liked_def bob_session_def)
  have l: "\<not> s_expiry bob_session < 40" "\<not> s_expiry bob_session < 50"
    by (simp_all add: bob_session_def)
  have p: "query ?r ''post_id'' \<noteq> []" "Atoi demo_env (query ?r ''post_id'') = Some 1"
    by (simp_all add: demo_request_def demo_env_def)
  have u: "s_user_id bob_session = 2"
    by (simp add: bob_session_def)
  have k: "has_user demo_liked (s_user_id bob_session)" "has_post demo_liked 1"
    by (simp_all add: has_user_def has_post_def demo_world_def demo_liked_def bob_session_def)
  have pk: "post_votes_pk demo_liked"
    by (simp add: post_votes_pk_def demo_world_def demo_liked_def)
  show ?thesis
    using vote_exclusivity [OF h c f l p k pk, unfolded u] pk
    by simp
qed

text \<open>
  Claim C3. When the vote table respects its \<^verbatim>\<open>CHECK\<close> constraint and the query of
  \<open>GetPostVoteStats\<close> goes through, the like count and the dislike count it returns are
  the numbers of rows of post \<open>T\<close> with vote \<open>1\<close> and with vote \<open>-1\<close> in the table at the
  time of the call, their sum is the number of rows of \<open>T\<close>, and the call leaves the
  table as it is: the counts are computed from the table, nothing is stored. Every
  statement run by \<^verbatim>\<open>db.Exec\<close> keeps the \<^verbatim>\<open>CHECK\<close> constraint.
\<close>

theorem vote_stats_derived:
  assumes "post_votes_check w"
    and "GetPostVoteStats U T w = ((likes, dislikes, userVote, userVoteExists, None), w')"
  shows "likes = int (length (filter (\<lambda>v. pv_vote v = 1) (filter (\<lambda>v. pv_post_id v = T) (post_votes w))))
       \<and> dislikes = int (length (filter (\<lambda>v. pv_vote v = - 1) (filter (\<lambda>v. pv_post_id v = T) (post_votes w))))
       \<and> likes + dislikes = int (length (filter (\<lambda>v. pv_post_id v = T) (post_votes w)))
       \<and> post_votes w' = post_votes w
       \<and> (\<forall>st w0. post_votes_check w0 \<longrightarrow> post_votes_check (snd (Exec st w0)))"
proof -
  let ?rows = "filter (\<lambda>v. pv_post_id v = T) (post_votes w)"
  have l: "likes = int (length (filter (\<lambda>v. pv_vote v = 1) ?rows))"
    and d: "dislikes = int (length (filter (\<lambda>v. pv_vote v = - 1) ?rows))"
    and p: "post_votes w' = post_votes w"
    using assms(2)
    by (auto simp: GetPostVoteStats_def driver_call_def Let_def sum_indicator
          split: option.splits list.splits if_splits)
  have "\<forall>v \<in> set ?rows. pv_vote v = 1 \<or> pv_vote v = - 1"
    using assms(1) by (simp add: post_votes_check_def)
  from check_partition[OF this] l d p Exec_check show ?thesis by simp
qed

theorem vote_stats_derived_witness:
  "post_votes_check demo_voted
   \<and> GetPostVoteStats 2 1 demo_voted = ((1, 1, - 1, True, None), demo_voted)
   \<and> (1::int) + 1 = int (length (filter (\<lambda>v. pv_post_id v = 1) (post_votes demo_voted)))"
proof -
  have ch: "post_votes_check demo_voted"
    by (simp add: post_votes_check_def demo_voted_def demo_world_def)
  have g: "GetPostVoteStats 2 1 demo_voted = ((1, 1, - 1, True, None), demo_voted)"
    by (simp add: GetPostVoteStats_def driver_call_def demo_voted_def demo_world_def
          is_post_vote_def Let_def)
  show ?thesis
    using vote_stats_derived [OF ch g] ch g by simp
qed

lemma demo_delete_result:
  "DeletePostHandler demo_env (demo_request ''DELETE'' ''tokA'' []) 50 demo_world =
     (Json 200 (Ok_message ''Post deleted successfully.''),
      demo_world\<lparr>posts := [], post_categories := [], comments := [], comment_votes := [],
        Sessions := [''tokA'' \<mapsto> \<lparr>UserID = 1, Role = ''user'', Expiry = 100\<rparr>],
        trace := [DELETE_post_categories 1, DELETE_comments_by_post 1, DELETE_post_votes_by_post 1,
                  DELETE_posts 1],
        logs := [''User %d deleted post %d.'']\<rparr>)"
  by (simp add: DeletePostHandler_def IsAuthenticated_def GetSessionData_def GetPostOwnerID_def
        DeletePostCategories_def DeletePostComments_def DeletePostVotes_def DeletePost_def
        Exec_def driver_call_def Println_def demo_env_def demo_request_def demo_world_def Let_def)
     auto

section \<open>Cascading deletes\<close>



text \<open>
  Claim C8, as the code has it. After a delete request for a post has been answered
  with success, the same request sent again (and still authenticated) is refused with
  status 404, \<open>Post not found.\<close>, under any outcome of the driver: the handler looks the
  owner of the post up first and stops when there is no row. The refusal executes no
  statement and leaves every table as it is.
\<close>

theorem second_delete_not_found:
  assumes first: "fst (DeletePostHandler e r now w) = Json 200 (Ok_message ''Post deleted successfully.'')"
    and auth: "fst (fst (IsAuthenticated r now2 (snd (DeletePostHandler e r now w))))"
  shows "fst (DeletePostHandler e r now2 (snd (DeletePostHandler e r now w))) = Json 404 (Fail ''Post not found.'')
       \<and> posts (snd (DeletePostHandler e r now2 (snd (DeletePostHandler e r now w))))
           = posts (snd (DeletePostHandler e r now w))
       \<and> post_categories (snd (DeletePostHandler e r now2 (snd (DeletePostHandler e r now w))))
           = post_categories (snd (DeletePostHandler e r now w))
       \<and> comments (snd (DeletePostHandler e r now2 (snd (DeletePostHandler e r now w))))
           = comments (snd (DeletePostHandler e r now w))
       \<and> post_votes (snd (DeletePostHandler e r now2 (snd (DeletePostHandler e r now w))))
           = post_votes (snd (DeletePostHandler e r now w))
       \<and> comment_votes (snd (DeletePostHandler e r now2 (snd (DeletePostHandler e r now w))))
           = comment_votes (snd (DeletePostHandler e r now w))
       \<and> trace (snd (DeletePostHandler e r now2 (snd (DeletePostHandler e r now w))))
           = trace (snd (DeletePostHandler e r now w))"
proof -
  from delete_success_absent [OF first] obtain P where
    m: "Method r = ''DELETE''" and q: "query r ''post_id'' \<noteq> []"
    and a: "Atoi e (query r ''post_id'') = Some P"
    and gone: "find (\<lambda>p. p_id p = P) (posts (snd (DeletePostHandler e r now w))) = None"
    by blast
  show ?thesis
    by (rule DeletePostHandler_absent [OF m auth q a gone])
qed

theorem second_delete_not_found_witness:
  "fst (DeletePostHandler demo_env (demo_request ''DELETE'' ''tokA'' []) 50 demo_world)
     = Json 200 (Ok_message ''Post deleted successfully.'')
   \<and> fst (DeletePostHandler demo_env (demo_request ''DELETE'' ''tokA'' []) 60
        (snd (DeletePostHandler demo_env (demo_request ''DELETE'' ''tokA'' []) 50 demo_world)))
     = Json 404 (Fail ''Post not found.'')
   \<and> trace (snd (DeletePostHandler demo_env (demo_request ''DELETE'' ''tokA'' []) 60
        (snd (DeletePostHandler demo_env (demo_request ''DELETE'' ''tokA'' []) 50 demo_world))))
     = [DELETE_post_categories 1, DELETE_comments_by_post 1, DELETE_post_votes_by_post 1, DELETE_posts 1]"
proof -
  let ?r = "demo_request ''DELETE'' ''tokA'' []"
  have first: "fst (DeletePostHandler demo_env ?r 50 demo_world)
      = Json 200 (Ok_message ''Post deleted successfully.'')"
    by (simp add: demo_delete_result)
  have auth: "fst (fst (IsAuthenticated ?r 60 (snd (DeletePostHandler demo_env ?r 50 demo_world))))"
    unfolding demo_delete_result
    by (simp add: IsAuthenticated_def GetSessionData_def driver_call_def demo_request_def demo_world_def)
  have t: "trace (snd (DeletePostHandler demo_env ?r 50 demo_world))
      = [DELETE_post_categories 1, DELETE_comments_by_post 1, DELETE_post_votes_by_post 1, DELETE_posts 1]"
    by (simp add: demo_delete_result)
  show ?thesis
    using second_delete_not_found [OF first auth] first t by simp
qed

text \<open>The claim as written fails: the second delete of the same post is answered with a
  failure, not with success.\<close>

theorem second_delete_counterexample:
  "fst (DeletePostHandler demo_env (demo_request ''DELETE'' ''tokA'' []) 50 demo_world)
     = Json 200 (Ok_message ''Post deleted successfully.'')
   \<and> fst (DeletePostHandler demo_env (demo_request ''DELETE'' ''tokA'' []) 60
        (snd (DeletePostHandler demo_env (demo_request ''DELETE'' ''tokA'' []) 50 demo_world)))
     = Json 404 (Fail ''Post not found.'')"
  unfolding demo_delete_result
  by (simp add: DeletePostHandler_def IsAuthenticated_def GetSessionData_def GetPostOwnerID_def
        driver_call_def Println_def demo_env_def demo_request_def demo_world_def)

section \<open>Comments\<close>

text \<open>
  Claim C10. For an authenticated comment request: when the content, trimmed of
  surrounding white space, is shorter than 3 bytes or longer than 500 bytes, the reply
  is a failure (\<^verbatim>\<open>"success": false\<close>) and the table of comments and its key counter are
  unchanged. When the reply is a success, the trimmed content has between 3 and 500
  bytes, and exactly one row has been appended, whose content is the form value as
  sent, not trimmed, which the reply repeats.
\<close>

theorem comment_length_validation:
  assumes auth: "fst (fst (IsAuthenticated r now w))"
  shows "(length (TrimSpace e (form r ''content'')) < 3 \<or> 500 < length (TrimSpace e (form r ''content''))
            \<longrightarrow> (\<exists>msg. fst (CommentHandler e r now now1 w) = Json 200 (Fail msg))
              \<and> comments (snd (CommentHandler e r now now1 w)) = comments w
              \<and> comment_seq (snd (CommentHandler e r now now1 w)) = comment_seq w)
       \<and> (\<forall>cid cnt u un ca. fst (CommentHandler e r now now1 w) = Json 200 (Ok_comment cid cnt u un ca)
            \<longrightarrow> cnt = form r ''content''
              \<and> 3 \<le> length (TrimSpace e cnt) \<and> length (TrimSpace e cnt) \<le> 500
              \<and> (\<exists>P. Atoi e (form r ''post_id'') = Some P
                   \<and> comments (snd (CommentHandler e r now now1 w)) = comments w @
                       [\<lparr>c_id = cid, c_post_id = P, c_user_id = u, c_content = form r ''content'',
                         c_created_at = ca\<rparr>]))"
proof (intro conjI impI allI)
  assume bad: "length (TrimSpace e (form r ''content'')) < 3 \<or> 500 < length (TrimSpace e (form r ''content''))"
  with auth show "\<exists>msg. fst (CommentHandler e r now now1 w) = Json 200 (Fail msg)"
    by (auto simp: CommentHandler_def case_prod_beta Let_def split: option.splits)
  from auth bad show "comments (snd (CommentHandler e r now now1 w)) = comments w"
    by (auto simp: CommentHandler_def case_prod_beta Let_def IsAuthenticated_comments Println_comments
          split: option.splits)
  from auth bad show "comment_seq (snd (CommentHandler e r now now1 w)) = comment_seq w"
    by (auto simp: CommentHandler_def case_prod_beta Let_def IsAuthenticated_comments Println_comments
          split: option.splits)
next
  fix cid cnt u un ca
  assume ok: "fst (CommentHandler e r now now1 w) = Json 200 (Ok_comment cid cnt u un ca)"
  then show "cnt = form r ''content''"
    by (auto simp: CommentHandler_def case_prod_beta Let_def split: option.splits if_splits)
  from ok show "3 \<le> length (TrimSpace e cnt)" "length (TrimSpace e cnt) \<le> 500"
    by (auto simp: CommentHandler_def case_prod_beta Let_def split: option.splits if_splits)
  from ok show "\<exists>P. Atoi e (form r ''post_id'') = Some P
       \<and> comments (snd (CommentHandler e r now now1 w)) = comments w @
           [\<lparr>c_id = cid, c_post_id = P, c_user_id = u, c_content = form r ''content'', c_created_at = ca\<rparr>]"
    by (auto simp: CommentHandler_def case_prod_beta Let_def IsAuthenticated_comments Println_comments
          GetUsernameByID_comments CreateComment_comments split: option.splits if_splits)
qed

theorem comment_length_validation_witness:
  "fst (fst (IsAuthenticated (demo_request ''POST'' ''tokA'' '' hi '') 50 demo_world))
   \<and> length (TrimSpace demo_env (form (demo_request ''POST'' ''tokA'' '' hi '') ''content'')) < 3
   \<and> fst (CommentHandler demo_env (demo_request ''POST'' ''tokA'' '' hi '') 50 51 demo_world)
       = Json 200 (Fail ''Comment must be at least 3 characters long.'')
   \<and> comments (snd (CommentHandler demo_env (demo_request ''POST'' ''tokA'' '' hi '') 50 51 demo_world))
       = comments demo_world
   \<and> fst (CommentHandler demo_env (demo_request ''POST'' ''tokA'' '' hello '') 50 51 demo_world)
       = Json 200 (Ok_comment 2 '' hello '' 1 ''ann'' ''2025-01-01 00:00:00'')
   \<and> comments (snd (CommentHandler demo_env (demo_request ''POST'' ''tokA'' '' hello '') 50 51 demo_world))
       = comments demo_world @ [\<lparr>c_id = 2, c_post_id = 1, c_user_id = 1, c_content = '' hello '',
                                  c_created_at = ''2025-01-01 00:00:00''\<rparr>]"
proof -
  let ?short = "demo_request ''POST'' ''tokA'' '' hi ''"
  let ?good = "demo_request ''POST'' ''tokA'' '' hello ''"
  have a: "fst (fst (IsAuthenticated ?short 50 demo_world))" "fst (fst (IsAuthenticated ?good 50 demo_world))"
    by (simp_all add: IsAuthenticated_def GetSessionData_def driver_call_def demo_request_def demo_world_def)
  have l: "length (TrimSpace demo_env (form ?short ''content'')) < 3"
    by (simp add: demo_env_def demo_request_def)
  have s: "fst (CommentHandler demo_env ?short 50 51 demo_world)
      = Json 200 (Fail ''Comment must be at least 3 characters long.'')"
    by (simp add: CommentHandler_def IsAuthenticated_def GetSessionData_def driver_call_def
          demo_request_def demo_world_def demo_env_def Println_def Let_def)
  have g: "fst (CommentHandler demo_env ?good 50 51 demo_world)
      = Json 200 (Ok_comment 2 '' hello '' 1 ''ann'' ''2025-01-01 00:00:00'')"
    by (simp add: CommentHandler_def IsAuthenticated_def GetSessionData_def driver_call_def
          CreateComment_def GetUsernameByID_def Exec_def has_post_def has_user_def next_comment_id_def
          demo_request_def demo_world_def demo_env_def Println_def Let_def)
  have p: "Atoi demo_env (form ?good ''post_id'') = Some 1"
    by (simp add: demo_env_def demo_request_def)
  show ?thesis
    using comment_length_validation [OF a(1), of demo_env 51]
      comment_length_validation [OF a(2), of demo_env 51] a l s g p
    by simp
qed

end
